theory Spec2Isabelle
  imports Complex_Main "HOL-Library.AList" "HOL-Library.Log_Nat"
begin

section \<open>Data model (core/models.py, core/database.py, core/config.py)\<close>

text \<open>
  The enums of \<^verbatim>\<open>core/models.py\<close>. \<^verbatim>\<open>CompanyStatus.FRESH\<close> is written
  \<open>COMPANY_FRESH\<close>, since \<open>FRESH\<close> is already the contact status.
\<close>

datatype DispositionStatus =
    FRESH
  | IN_SEQUENCE
  | COMPLETED_NO_RESPONSE
  | REPLIED_POSITIVE
  | REPLIED_NEUTRAL
  | REPLIED_NEGATIVE
  | REPLIED_HARD_NO
  | BOUNCED
  | UNSUBSCRIBED
  | RETOUCH_ELIGIBLE
  | STALE_DATA
  | JOB_CHANGE_DETECTED
  | WON_CUSTOMER
  | LOST_CLOSED

datatype CompanyStatus = COMPANY_FRESH | ACTIVE | COOLING | SUPPRESSED | CUSTOMER

datatype Channel = EMAIL | LINKEDIN | PHONE

text \<open>
  A \<^verbatim>\<open>datetime\<close> is a point on the UTC time line, counted in microseconds; a
  \<^verbatim>\<open>timedelta\<close> is a number of microseconds. The store keeps timestamps as ISO
  strings and compares them as such; here they are compared as the instants they denote.
  Every top-level operation takes the clock reading \<open>now\<close> as an argument and uses it
  for each of the clock reads of that operation.
\<close>

type_synonym datetime = int
type_synonym timedelta = int

definition timedelta_days :: "int \<Rightarrow> timedelta" where
  "timedelta_days n = n * 86400000000"

text \<open>
  A row of table \<^verbatim>\<open>contacts\<close>; the primary key is \<open>(email, client_id)\<close>. The
  columns that no operation below reads or decides on (names, title, source, enrichment
  date, the LinkedIn and phone cooldowns, \<^verbatim>\<open>created_at\<close>) are left out.
\<close>

record Contact =
  email :: string
  client_id :: string
  company_domain :: string
  disposition_status :: DispositionStatus
  disposition_updated_at :: "datetime option"
  email_last_contacted :: "datetime option"
  linkedin_last_contacted :: "datetime option"
  phone_last_contacted :: "datetime option"
  email_cooldown_until :: "datetime option"
  email_suppressed :: bool
  linkedin_suppressed :: bool
  phone_suppressed :: bool
  sequence_count :: int
  updated_at :: "datetime option"

text \<open>
  A row of table \<^verbatim>\<open>companies\<close>; the primary key is \<open>domain\<close>. Column
  \<^verbatim>\<open>updated_at\<close> is \<open>company_updated_at\<close> here; \<^verbatim>\<open>name\<close>,
  \<^verbatim>\<open>company_cooldown_until\<close> and \<^verbatim>\<open>created_at\<close> are left out.
\<close>

record Company =
  domain :: string
  company_status :: CompanyStatus
  company_suppressed :: bool
  suppressed_reason :: "string option"
  suppressed_at :: "datetime option"
  contacts_total :: int
  contacts_in_sequence :: int
  contacts_touched :: int
  last_contact_date :: "datetime option"
  is_customer :: bool
  customer_since :: "datetime option"
  client_owner_id :: "string option"
  client_owned_at :: "datetime option"
  ownership_expires_at :: "datetime option"
  company_updated_at :: "datetime option"

text \<open>Rows of the three append-only tables (the generated \<^verbatim>\<open>id\<close> is left out).\<close>

record DispositionHistory =
  contact_email :: string
  contact_client_id :: string
  previous_status :: "DispositionStatus option"
  new_status :: DispositionStatus
  transition_reason :: "string option"
  triggered_by :: string
  campaign_id :: "string option"
  created_at :: datetime

record OwnershipChange =
  oc_company_domain :: string
  previous_owner_id :: "string option"
  new_owner_id :: "string option"
  change_reason :: string
  changed_at :: datetime

record CampaignAssignment =
  ca_contact_email :: string
  ca_contact_client_id :: string
  ca_campaign_id :: string
  ca_client_id :: string
  ca_channel :: Channel
  assigned_at :: datetime

text \<open>The store: each table is the list of its rows, in insertion order.\<close>

record Database =
  contacts :: "Contact list"
  companies :: "Company list"
  disposition_history :: "DispositionHistory list"
  client_ownership :: "OwnershipChange list"
  campaign_assignments :: "CampaignAssignment list"

definition empty_database :: Database where
  "empty_database =
     \<lparr>contacts = [], companies = [], disposition_history = [],
      client_ownership = [], campaign_assignments = []\<rparr>"

subsection \<open>Python floats\<close>

text \<open>
  A Python \<^verbatim>\<open>float\<close> is an IEEE 754 binary64 value: a finite one is given as the
  rational it denotes (\<open>Finite 0\<close> stands for both zeros, which no operation below tells
  apart), beside the two infinities and NaN.
\<close>

datatype py_float = Finite rat | PosInf | NegInf | NaN

text \<open>
  Rounding a rational to the nearest binary64 value, ties to the even significand, as
  every float operation of the interpreter does. With \<open>pow2 k\<close> the power of two of
  exponent \<open>k\<close> and \<open>e = floor_log2 \<bar>x\<bar>\<close> the exponent of \<open>x \<noteq> 0\<close>, that is
  \<open>pow2 e \<le> \<bar>x\<bar> < pow2 (e + 1)\<close>, the binary64 values around \<open>x\<close> are the multiples of
  \<open>pow2 (e - 52)\<close>, and of \<open>pow2 (- 1074)\<close> in the subnormal range \<open>e < - 1022\<close>; a
  rounded magnitude of \<open>pow2 1024\<close> or more is an infinity.
\<close>

definition pow2 :: "int \<Rightarrow> rat" where
  "pow2 k = (if 0 \<le> k then 2 ^ nat k else 1 / 2 ^ nat (- k))"

definition round_half_even :: "rat \<Rightarrow> int" where
  "round_half_even x =
     (let n = \<lfloor>x\<rfloor>; d = x - of_int n
      in if d < 1 / 2 then n else if 1 / 2 < d then n + 1 else if even n then n else n + 1)"

definition floor_log2 :: "rat \<Rightarrow> int" where
  "floor_log2 x = (if 1 \<le> x then bitlen \<lfloor>x\<rfloor> - 1 else - bitlen (\<lceil>1 / x\<rceil> - 1))"

definition round_to_double :: "rat \<Rightarrow> py_float" where
  "round_to_double x =
     (if x = 0 then Finite 0
      else
        (let e = floor_log2 \<bar>x\<bar>;
             q = pow2 (max e (- 1022) - 52);
             m = round_half_even (x / q)
         in if 1024 \<le> e \<or> (e = 1023 \<and> \<bar>m\<bar> = 2 ^ 53)
            then (if 0 < x then PosInf else NegInf)
            else Finite (of_int m * q)))"

text \<open>The product of two floats.\<close>

fun float_mul :: "py_float \<Rightarrow> py_float \<Rightarrow> py_float" where
  "float_mul NaN y = NaN"
| "float_mul x NaN = NaN"
| "float_mul (Finite x) (Finite y) = round_to_double (x * y)"
| "float_mul (Finite x) PosInf = (if x = 0 then NaN else if 0 < x then PosInf else NegInf)"
| "float_mul (Finite x) NegInf = (if x = 0 then NaN else if 0 < x then NegInf else PosInf)"
| "float_mul PosInf (Finite y) = (if y = 0 then NaN else if 0 < y then PosInf else NegInf)"
| "float_mul NegInf (Finite y) = (if y = 0 then NaN else if 0 < y then NegInf else PosInf)"
| "float_mul PosInf PosInf = PosInf"
| "float_mul PosInf NegInf = NegInf"
| "float_mul NegInf PosInf = NegInf"
| "float_mul NegInf NegInf = PosInf"

text \<open>
  The settings of \<^verbatim>\<open>core/config.py\<close> that the operations below read. The ratio
  \<^verbatim>\<open>fresh_retouch_ratio\<close> is a float; its default is the binary64 value of the
  literal \<^verbatim>\<open>0.7\<close>. The quotients of the TAM tracker are taken as exact rationals.
\<close>

record Settings =
  cooldown_no_response_days :: int
  cooldown_neutral_reply_days :: int
  cooldown_negative_reply_days :: int
  cooldown_lost_closed_days :: int
  ownership_duration_months :: int
  max_contacts_per_company :: int
  fresh_retouch_ratio :: py_float
  tam_warning_weeks :: int
  tam_critical_weeks :: int
  waterfall_enabled :: bool
  waterfall_provider_order :: string

definition default_settings :: Settings where
  "default_settings =
     \<lparr>cooldown_no_response_days = 90,
      cooldown_neutral_reply_days = 45,
      cooldown_negative_reply_days = 180,
      cooldown_lost_closed_days = 90,
      ownership_duration_months = 12,
      max_contacts_per_company = 3,
      fresh_retouch_ratio = Finite (6305039478318694 / 9007199254740992),
      tam_warning_weeks = 8,
      tam_critical_weeks = 4,
      waterfall_enabled = True,
      waterfall_provider_order = ''internal,ai_ark,clay,jina,spider''\<rparr>"

text \<open>
  The exceptions the modelled code raises. \<^verbatim>\<open>TransitionError\<close> carries what its
  message is formatted from: the current status, the requested one and the allowed set.
  \<open>NonException\<close> is a raise whose class derives from \<^verbatim>\<open>BaseException\<close> but not
  from \<^verbatim>\<open>Exception\<close> (\<^verbatim>\<open>asyncio.CancelledError\<close>, \<^verbatim>\<open>KeyboardInterrupt\<close>,
  \<^verbatim>\<open>SystemExit\<close>, \<^verbatim>\<open>GeneratorExit\<close>), named by its string; the other four are
  subclasses of \<^verbatim>\<open>Exception\<close>.
\<close>

datatype py_exception =
    ValueError string
  | TransitionError DispositionStatus DispositionStatus "DispositionStatus set"
  | IntegrityError string
  | OverflowError string
  | NonException string

section \<open>Store operations (core/database.py)\<close>

text \<open>
  \<^verbatim>\<open>update_contact_fields\<close> and \<^verbatim>\<open>update_company_fields\<close> take keyword arguments;
  a keyword argument is a value of the datatypes below, and the dictionary of them a list
  in insertion order (a later entry for the same column overrides an earlier one, as a
  dictionary assignment does).
\<close>

datatype contact_field =
    Set_disposition_status DispositionStatus
  | Set_disposition_updated_at datetime
  | Set_email_cooldown_until datetime
  | Set_email_suppressed bool
  | Set_linkedin_suppressed bool
  | Set_phone_suppressed bool
  | Set_email_last_contacted datetime
  | Set_linkedin_last_contacted datetime
  | Set_phone_last_contacted datetime
  | Set_sequence_count int

fun set_contact_field :: "contact_field \<Rightarrow> Contact \<Rightarrow> Contact" where
  "set_contact_field (Set_disposition_status v) c = c\<lparr>disposition_status := v\<rparr>"
| "set_contact_field (Set_disposition_updated_at v) c = c\<lparr>disposition_updated_at := Some v\<rparr>"
| "set_contact_field (Set_email_cooldown_until v) c = c\<lparr>email_cooldown_until := Some v\<rparr>"
| "set_contact_field (Set_email_suppressed v) c = c\<lparr>email_suppressed := v\<rparr>"
| "set_contact_field (Set_linkedin_suppressed v) c = c\<lparr>linkedin_suppressed := v\<rparr>"
| "set_contact_field (Set_phone_suppressed v) c = c\<lparr>phone_suppressed := v\<rparr>"
| "set_contact_field (Set_email_last_contacted v) c = c\<lparr>email_last_contacted := Some v\<rparr>"
| "set_contact_field (Set_linkedin_last_contacted v) c = c\<lparr>linkedin_last_contacted := Some v\<rparr>"
| "set_contact_field (Set_phone_last_contacted v) c = c\<lparr>phone_last_contacted := Some v\<rparr>"
| "set_contact_field (Set_sequence_count v) c = c\<lparr>sequence_count := v\<rparr>"

datatype company_field =
    Set_contacts_in_sequence int
  | Set_contacts_touched int
  | Set_company_status CompanyStatus
  | Set_last_contact_date datetime
  | Set_is_customer bool
  | Set_customer_since datetime
  | Set_company_suppressed bool
  | Set_suppressed_reason string
  | Set_suppressed_at datetime
  | Set_client_owner_id "string option"
  | Set_client_owned_at "datetime option"
  | Set_ownership_expires_at "datetime option"

fun set_company_field :: "company_field \<Rightarrow> Company \<Rightarrow> Company" where
  "set_company_field (Set_contacts_in_sequence v) co = co\<lparr>contacts_in_sequence := v\<rparr>"
| "set_company_field (Set_contacts_touched v) co = co\<lparr>contacts_touched := v\<rparr>"
| "set_company_field (Set_company_status v) co = co\<lparr>company_status := v\<rparr>"
| "set_company_field (Set_last_contact_date v) co = co\<lparr>last_contact_date := Some v\<rparr>"
| "set_company_field (Set_is_customer v) co = co\<lparr>is_customer := v\<rparr>"
| "set_company_field (Set_customer_since v) co = co\<lparr>customer_since := Some v\<rparr>"
| "set_company_field (Set_company_suppressed v) co = co\<lparr>company_suppressed := v\<rparr>"
| "set_company_field (Set_suppressed_reason v) co = co\<lparr>suppressed_reason := Some v\<rparr>"
| "set_company_field (Set_suppressed_at v) co = co\<lparr>suppressed_at := Some v\<rparr>"
| "set_company_field (Set_client_owner_id v) co = co\<lparr>client_owner_id := v\<rparr>"
| "set_company_field (Set_client_owned_at v) co = co\<lparr>client_owned_at := v\<rparr>"
| "set_company_field (Set_ownership_expires_at v) co = co\<lparr>ownership_expires_at := v\<rparr>"

definition is_contact :: "string \<Rightarrow> string \<Rightarrow> Contact \<Rightarrow> bool" where
  "is_contact e cid c = (email c = e \<and> client_id c = cid)"

definition get_contact :: "Database \<Rightarrow> string \<Rightarrow> string \<Rightarrow> Contact option" where
  "get_contact db e cid = find (is_contact e cid) (contacts db)"

definition get_contacts_by_domain :: "Database \<Rightarrow> string \<Rightarrow> Contact list" where
  "get_contacts_by_domain db d = filter (\<lambda>c. company_domain c = d) (contacts db)"

definition update_contact_row :: "datetime \<Rightarrow> contact_field list \<Rightarrow> Contact \<Rightarrow> Contact" where
  "update_contact_row now flds c = (fold set_contact_field flds c)\<lparr>updated_at := Some now\<rparr>"

definition update_contact_fields ::
  "Database \<Rightarrow> datetime \<Rightarrow> string \<Rightarrow> string \<Rightarrow> contact_field list \<Rightarrow> Database" where
  "update_contact_fields db now e cid flds =
     (if flds = [] then db
      else db\<lparr>contacts :=
        map (\<lambda>c. if is_contact e cid c then update_contact_row now flds c else c)
          (contacts db)\<rparr>)"

definition get_company :: "Database \<Rightarrow> string \<Rightarrow> Company option" where
  "get_company db d = find (\<lambda>co. domain co = d) (companies db)"

definition new_company :: "string \<Rightarrow> Company" where
  "new_company d =
     \<lparr>domain = d, company_status = COMPANY_FRESH, company_suppressed = False,
      suppressed_reason = None, suppressed_at = None, contacts_total = 0,
      contacts_in_sequence = 0, contacts_touched = 0, last_contact_date = None,
      is_customer = False, customer_since = None, client_owner_id = None,
      client_owned_at = None, ownership_expires_at = None, company_updated_at = None\<rparr>"

definition ensure_company :: "Database \<Rightarrow> string \<Rightarrow> Database" where
  "ensure_company db d =
     (case get_company db d of
        Some co \<Rightarrow> db
      | None \<Rightarrow> db\<lparr>companies := companies db @ [new_company d]\<rparr>)"

definition update_company_row :: "datetime \<Rightarrow> company_field list \<Rightarrow> Company \<Rightarrow> Company" where
  "update_company_row now flds co =
     (fold set_company_field flds co)\<lparr>company_updated_at := Some now\<rparr>"

definition update_company_fields ::
  "Database \<Rightarrow> datetime \<Rightarrow> string \<Rightarrow> company_field list \<Rightarrow> Database" where
  "update_company_fields db now d flds =
     (if flds = [] then db
      else db\<lparr>companies :=
        map (\<lambda>co. if domain co = d then update_company_row now flds co else co)
          (companies db)\<rparr>)"

text \<open>
  \<^verbatim>\<open>create_contact\<close>: the company row is created when missing, the contact row is
  inserted with the columns the statement names (the others take the schema's defaults)
  and \<^verbatim>\<open>contacts_total\<close> is incremented. A second row with the same primary key is
  refused by the store (\<^verbatim>\<open>sqlite3.IntegrityError\<close>).
\<close>

definition new_contact_row :: "datetime \<Rightarrow> Contact \<Rightarrow> Contact" where
  "new_contact_row now c =
     \<lparr>email = email c, client_id = client_id c, company_domain = company_domain c,
      disposition_status = disposition_status c, disposition_updated_at = Some now,
      email_last_contacted = None, linkedin_last_contacted = None,
      phone_last_contacted = None, email_cooldown_until = None,
      email_suppressed = False, linkedin_suppressed = False, phone_suppressed = False,
      sequence_count = 0, updated_at = Some now\<rparr>"

definition create_contact ::
  "Database \<Rightarrow> datetime \<Rightarrow> Contact \<Rightarrow> (py_exception + Contact) \<times> Database" where
  "create_contact db now c =
     (let db1 = ensure_company db (company_domain c) in
      case get_contact db1 (email c) (client_id c) of
        Some old \<Rightarrow> (Inl (IntegrityError ''UNIQUE constraint failed''), db1)
      | None \<Rightarrow>
          (let row = new_contact_row now c;
               db2 = db1\<lparr>contacts := contacts db1 @ [row]\<rparr>;
               db3 = db2\<lparr>companies :=
                 map (\<lambda>co. if domain co = company_domain c
                            then co\<lparr>contacts_total := contacts_total co + 1\<rparr> else co)
                   (companies db2)\<rparr>
           in (Inr row, db3)))"

definition insert_history ::
  "Database \<Rightarrow> datetime \<Rightarrow> string \<Rightarrow> string \<Rightarrow> DispositionStatus option \<Rightarrow>
   DispositionStatus \<Rightarrow> string option \<Rightarrow> string \<Rightarrow> string option \<Rightarrow> Database" where
  "insert_history db now e cid prev new reason trig camp =
     db\<lparr>disposition_history := disposition_history db @
       [\<lparr>contact_email = e, contact_client_id = cid, previous_status = prev,
         new_status = new, transition_reason = reason, triggered_by = trig,
         campaign_id = camp, created_at = now\<rparr>]\<rparr>"

definition insert_ownership_change ::
  "Database \<Rightarrow> datetime \<Rightarrow> string \<Rightarrow> string option \<Rightarrow> string option \<Rightarrow> string \<Rightarrow> Database" where
  "insert_ownership_change db now d prev new reason =
     db\<lparr>client_ownership := client_ownership db @
       [\<lparr>oc_company_domain = d, previous_owner_id = prev, new_owner_id = new,
         change_reason = reason, changed_at = now\<rparr>]\<rparr>"

definition insert_assignment ::
  "Database \<Rightarrow> datetime \<Rightarrow> string \<Rightarrow> string \<Rightarrow> string \<Rightarrow> string \<Rightarrow> Channel \<Rightarrow> Database" where
  "insert_assignment db now e cid camp client ch =
     db\<lparr>campaign_assignments := campaign_assignments db @
       [\<lparr>ca_contact_email = e, ca_contact_client_id = cid, ca_campaign_id = camp,
         ca_client_id = client, ca_channel = ch, assigned_at = now\<rparr>]\<rparr>"

definition get_expired_cooldowns :: "Database \<Rightarrow> datetime \<Rightarrow> Contact list" where
  "get_expired_cooldowns db now =
     filter (\<lambda>c. disposition_status c \<in>
                   {COMPLETED_NO_RESPONSE, REPLIED_NEUTRAL, REPLIED_NEGATIVE, LOST_CLOSED}
                 \<and> (case email_cooldown_until c of None \<Rightarrow> False | Some t \<Rightarrow> t \<le> now))
       (contacts db)"

section \<open>State machine (state\_machine.py)\<close>

text \<open>
  The dictionary \<^verbatim>\<open>TRANSITIONS\<close> has an entry for each of the fourteen statuses, so
  the default of \<^verbatim>\<open>TRANSITIONS.get(current, set())\<close> is never taken.
\<close>

fun TRANSITIONS :: "DispositionStatus \<Rightarrow> DispositionStatus set" where
  "TRANSITIONS FRESH = {IN_SEQUENCE, STALE_DATA, JOB_CHANGE_DETECTED}"
| "TRANSITIONS IN_SEQUENCE =
     {COMPLETED_NO_RESPONSE, REPLIED_POSITIVE, REPLIED_NEUTRAL, REPLIED_NEGATIVE,
      REPLIED_HARD_NO, BOUNCED, UNSUBSCRIBED}"
| "TRANSITIONS COMPLETED_NO_RESPONSE = {RETOUCH_ELIGIBLE, STALE_DATA, JOB_CHANGE_DETECTED}"
| "TRANSITIONS REPLIED_POSITIVE = {WON_CUSTOMER, LOST_CLOSED}"
| "TRANSITIONS REPLIED_NEUTRAL = {RETOUCH_ELIGIBLE, STALE_DATA}"
| "TRANSITIONS REPLIED_NEGATIVE = {RETOUCH_ELIGIBLE, STALE_DATA}"
| "TRANSITIONS REPLIED_HARD_NO = {}"
| "TRANSITIONS BOUNCED = {}"
| "TRANSITIONS UNSUBSCRIBED = {}"
| "TRANSITIONS RETOUCH_ELIGIBLE = {IN_SEQUENCE, STALE_DATA, JOB_CHANGE_DETECTED}"
| "TRANSITIONS STALE_DATA = {FRESH, RETOUCH_ELIGIBLE}"
| "TRANSITIONS JOB_CHANGE_DETECTED = {FRESH}"
| "TRANSITIONS WON_CUSTOMER = {}"
| "TRANSITIONS LOST_CLOSED = {RETOUCH_ELIGIBLE}"

text \<open>
  The table of section 4.2 of the specification, written from its rows, to be compared
  with \<open>TRANSITIONS\<close>.
\<close>

definition spec_allowed_targets :: "DispositionStatus \<Rightarrow> DispositionStatus set" where
  "spec_allowed_targets s =
     (if s = FRESH then {IN_SEQUENCE, STALE_DATA, JOB_CHANGE_DETECTED}
      else if s = IN_SEQUENCE then
        {COMPLETED_NO_RESPONSE, REPLIED_POSITIVE, REPLIED_NEUTRAL, REPLIED_NEGATIVE,
         REPLIED_HARD_NO, BOUNCED, UNSUBSCRIBED}
      else if s = COMPLETED_NO_RESPONSE then {RETOUCH_ELIGIBLE, STALE_DATA, JOB_CHANGE_DETECTED}
      else if s = REPLIED_POSITIVE then {WON_CUSTOMER, LOST_CLOSED}
      else if s = REPLIED_NEUTRAL then {RETOUCH_ELIGIBLE, STALE_DATA}
      else if s = REPLIED_NEGATIVE then {RETOUCH_ELIGIBLE, STALE_DATA}
      else if s = RETOUCH_ELIGIBLE then {IN_SEQUENCE, STALE_DATA, JOB_CHANGE_DETECTED}
      else if s = STALE_DATA then {FRESH, RETOUCH_ELIGIBLE}
      else if s = JOB_CHANGE_DETECTED then {FRESH}
      else if s = LOST_CLOSED then {RETOUCH_ELIGIBLE}
      else {})"

definition validate_transition ::
  "DispositionStatus \<Rightarrow> DispositionStatus \<Rightarrow> py_exception + unit" where
  "validate_transition current target =
     (if current = target then Inr ()
      else if target \<notin> TRANSITIONS current
        then Inl (TransitionError current target (TRANSITIONS current))
      else Inr ())"

definition get_cooldown :: "Settings \<Rightarrow> DispositionStatus \<Rightarrow> timedelta option" where
  "get_cooldown s new =
     (if new = COMPLETED_NO_RESPONSE then Some (timedelta_days (cooldown_no_response_days s))
      else if new = REPLIED_NEUTRAL then Some (timedelta_days (cooldown_neutral_reply_days s))
      else if new = REPLIED_NEGATIVE then Some (timedelta_days (cooldown_negative_reply_days s))
      else if new = LOST_CLOSED then Some (timedelta_days (cooldown_lost_closed_days s))
      else None)"

definition get_suppression :: "DispositionStatus \<Rightarrow> contact_field list" where
  "get_suppression new =
     (if new = REPLIED_HARD_NO then
        [Set_email_suppressed True, Set_linkedin_suppressed True, Set_phone_suppressed True]
      else if new = BOUNCED \<or> new = UNSUBSCRIBED then [Set_email_suppressed True]
      else [])"

text \<open>
  \<^verbatim>\<open>_update_company_state\<close>: the dictionary \<^verbatim>\<open>updates\<close> is built in three steps and
  written when it is not empty.
\<close>

definition company_state_updates ::
  "Database \<Rightarrow> datetime \<Rightarrow> string \<Rightarrow> DispositionStatus \<Rightarrow> DispositionStatus \<Rightarrow>
   company_field list" where
  "company_state_updates db now d old new =
     (if new = IN_SEQUENCE then
        (case get_company db d of
           Some company \<Rightarrow>
             [Set_contacts_in_sequence (contacts_in_sequence company + 1),
              Set_contacts_touched (contacts_touched company + 1),
              Set_company_status ACTIVE,
              Set_last_contact_date now]
         | None \<Rightarrow> [])
      else if old = IN_SEQUENCE then
        (case get_company db d of
           Some company \<Rightarrow>
             (let new_count = max 0 (contacts_in_sequence company - 1) in
              Set_contacts_in_sequence new_count #
              (if new_count = 0 \<and> contacts_touched company > 0
               then [Set_company_status COOLING] else []))
         | None \<Rightarrow> [])
      else [])
     @ (if new = WON_CUSTOMER then
          [Set_company_status CUSTOMER, Set_is_customer True, Set_customer_since now]
        else [])
     @ (if new = REPLIED_HARD_NO then
          [Set_company_status SUPPRESSED, Set_company_suppressed True,
           Set_suppressed_reason ''hard_no_received'', Set_suppressed_at now]
        else [])"

definition update_company_state ::
  "Database \<Rightarrow> datetime \<Rightarrow> string \<Rightarrow> DispositionStatus \<Rightarrow> DispositionStatus \<Rightarrow> Database" where
  "update_company_state db now d old new =
     (let updates = company_state_updates db now d old new in
      if updates \<noteq> [] then update_company_fields db now d updates else db)"

text \<open>
  \<^verbatim>\<open>_suppress_company\<close>: the loop runs over the rows fetched before it starts, and
  tests the flag of the fetched row.
\<close>

fun suppress_loop :: "datetime \<Rightarrow> Contact list \<Rightarrow> Database \<Rightarrow> Database" where
  "suppress_loop now [] db = db"
| "suppress_loop now (c # cs) db =
     suppress_loop now cs
       (if \<not> email_suppressed c
        then update_contact_fields db now (email c) (client_id c) [Set_email_suppressed True]
        else db)"

definition suppress_company :: "Database \<Rightarrow> datetime \<Rightarrow> string \<Rightarrow> Database" where
  "suppress_company db now d = suppress_loop now (get_contacts_by_domain db d) db"

text \<open>
  \<^verbatim>\<open>StateMachine.transition\<close>. The result pairs what the call does (\<open>Inl\<close>: the
  exception it raises, \<open>Inr ()\<close>: it returns) with the store it leaves.
\<close>

definition transition ::
  "Settings \<Rightarrow> datetime \<Rightarrow> Database \<Rightarrow> string \<Rightarrow> string \<Rightarrow> DispositionStatus \<Rightarrow>
   string option \<Rightarrow> string \<Rightarrow> string option \<Rightarrow> (py_exception + unit) \<times> Database" where
  "transition s now db e cid new reason trig camp =
     (case get_contact db e cid of
        None \<Rightarrow> (Inl (ValueError (''Contact not found: '' @ e @ '' / '' @ cid)), db)
      | Some contact \<Rightarrow>
          (let current = disposition_status contact in
           case validate_transition current new of
             Inl err \<Rightarrow> (Inl err, db)
           | Inr u \<Rightarrow>
               (let updates =
                      [Set_disposition_status new, Set_disposition_updated_at now]
                      @ (case get_cooldown s new of
                           None \<Rightarrow> []
                         | Some cooldown \<Rightarrow>
                             if cooldown \<noteq> 0 then [Set_email_cooldown_until (now + cooldown)]
                             else [])
                      @ get_suppression new;
                    db1 = update_contact_fields db now e cid updates;
                    db2 = insert_history db1 now e cid (Some current) new reason trig camp;
                    db3 = update_company_state db2 now (company_domain contact) current new;
                    db4 = (if new = REPLIED_HARD_NO
                           then suppress_company db3 now (company_domain contact) else db3)
                in (Inr (), db4))))"

text \<open>
  \<^verbatim>\<open>process_expired_cooldowns\<close>: a \<^verbatim>\<open>TransitionError\<close> is swallowed, any other
  exception leaves the loop.
\<close>

fun cooldown_loop ::
  "Settings \<Rightarrow> datetime \<Rightarrow> Contact list \<Rightarrow> int \<Rightarrow> Database \<Rightarrow> (py_exception + int) \<times> Database" where
  "cooldown_loop s now [] count db = (Inr count, db)"
| "cooldown_loop s now (c # cs) count db =
     (case transition s now db (email c) (client_id c) RETOUCH_ELIGIBLE
             (Some ''cooldown_expired'') ''system'' None of
        (Inr u, db') \<Rightarrow> cooldown_loop s now cs (count + 1) db'
      | (Inl (TransitionError a b al), db') \<Rightarrow> cooldown_loop s now cs count db'
      | (Inl err, db') \<Rightarrow> (Inl err, db'))"

definition process_expired_cooldowns ::
  "Settings \<Rightarrow> datetime \<Rightarrow> Database \<Rightarrow> (py_exception + int) \<times> Database" where
  "process_expired_cooldowns s now db = cooldown_loop s now (get_expired_cooldowns db now) 0 db"

section \<open>Deconfliction (deconfliction.py)\<close>

definition claim_ownership ::
  "Settings \<Rightarrow> datetime \<Rightarrow> Database \<Rightarrow> string \<Rightarrow> string \<Rightarrow> bool \<times> Database" where
  "claim_ownership s now db d cid =
     (case get_company db d of
        None \<Rightarrow> (False, db)
      | Some company \<Rightarrow>
          if client_owner_id company \<noteq> None \<and> client_owner_id company \<noteq> Some cid
          then (False, db)
          else
            (let expiry = now + timedelta_days (ownership_duration_months s * 30);
                 db1 = update_company_fields db now d
                         [Set_client_owner_id (Some cid), Set_client_owned_at (Some now),
                          Set_ownership_expires_at (Some expiry)];
                 db2 = insert_ownership_change db1 now d (client_owner_id company) (Some cid)
                         ''first_claim''
             in (True, db2)))"

section \<open>TAM tracker (tam\_tracker.py, with the two store queries it reads)\<close>

text \<open>
  A \<^verbatim>\<open>client_id\<close> that is \<^verbatim>\<open>None\<close> or empty selects every row (the source tests
  its truth value).
\<close>

definition in_scope :: "string option \<Rightarrow> string \<Rightarrow> bool" where
  "in_scope client c = (case client of None \<Rightarrow> True | Some x \<Rightarrow> x = [] \<or> c = x)"

definition count_where :: "('a \<Rightarrow> bool) \<Rightarrow> 'a list \<Rightarrow> int" where
  "count_where P xs = int (length (filter P xs))"

definition get_tam_pools :: "Database \<Rightarrow> datetime \<Rightarrow> string option \<Rightarrow> (string \<times> int) list" where
  "get_tam_pools db now client =
     (let rows = filter (\<lambda>c. in_scope client (client_id c)) (contacts db) in
      [(''total_universe'', int (length rows)),
       (''never_touched'',
          count_where (\<lambda>c. disposition_status c = FRESH \<and> sequence_count c = 0) rows),
       (''in_cooldown'',
          count_where (\<lambda>c. disposition_status c \<in>
              {COMPLETED_NO_RESPONSE, REPLIED_NEUTRAL, REPLIED_NEGATIVE, LOST_CLOSED}
            \<and> (case email_cooldown_until c of None \<Rightarrow> False | Some t \<Rightarrow> t > now)) rows),
       (''available_now'',
          count_where (\<lambda>c. disposition_status c \<in> {FRESH, RETOUCH_ELIGIBLE}
            \<and> \<not> email_suppressed c
            \<and> (case email_cooldown_until c of None \<Rightarrow> True | Some t \<Rightarrow> t \<le> now)) rows),
       (''permanent_suppress'',
          count_where (\<lambda>c. disposition_status c \<in> {REPLIED_HARD_NO, BOUNCED, UNSUBSCRIBED}) rows),
       (''in_sequence'', count_where (\<lambda>c. disposition_status c = IN_SEQUENCE) rows),
       (''won_customer'', count_where (\<lambda>c. disposition_status c = WON_CUSTOMER) rows)])"

definition get_burn_rate :: "Database \<Rightarrow> datetime \<Rightarrow> string option \<Rightarrow> rat" where
  "get_burn_rate db now client =
     of_int (count_where
       (\<lambda>h. new_status h = IN_SEQUENCE \<and> created_at h > now - timedelta_days 7
            \<and> in_scope client (contact_client_id h))
       (disposition_history db))"

record TAMHealth =
  total_universe :: int
  never_touched :: int
  in_cooldown :: int
  available_now :: int
  permanent_suppress :: int
  in_sequence :: int
  won_customer :: int
  burn_rate_weekly :: rat
  exhaustion_eta_weeks :: "rat option"
  health_status :: string

definition dict_get :: "('k \<times> 'v) list \<Rightarrow> 'k \<Rightarrow> 'v \<Rightarrow> 'v" where
  "dict_get d k dflt = (case map_of d k of None \<Rightarrow> dflt | Some v \<Rightarrow> v)"

definition get_health :: "Settings \<Rightarrow> datetime \<Rightarrow> Database \<Rightarrow> string option \<Rightarrow> TAMHealth" where
  "get_health s now db client =
     (let pools = get_tam_pools db now client;
          burn_rate = get_burn_rate db now client;
          available = dict_get pools ''available_now'' 0;
          eta = (if burn_rate > 0 then Some (of_int available / burn_rate) else None);
          status =
            (case eta of
               None \<Rightarrow> ''healthy''
             | Some x \<Rightarrow>
                 if x < of_int (tam_critical_weeks s) then ''critical''
                 else if x < of_int (tam_warning_weeks s) then ''warning''
                 else ''healthy'')
      in \<lparr>total_universe = dict_get pools ''total_universe'' 0,
          never_touched = dict_get pools ''never_touched'' 0,
          in_cooldown = dict_get pools ''in_cooldown'' 0,
          available_now = available,
          permanent_suppress = dict_get pools ''permanent_suppress'' 0,
          in_sequence = dict_get pools ''in_sequence'' 0,
          won_customer = dict_get pools ''won_customer'' 0,
          burn_rate_weekly = burn_rate,
          exhaustion_eta_weeks = eta,
          health_status = status\<rparr>)"

section \<open>Campaign fill engine (campaign\_fill.py)\<close>

text \<open>
  The fields of \<^verbatim>\<open>CampaignFillRequest\<close> and \<^verbatim>\<open>CampaignFillResult\<close> that share a
  name with a column carry the prefix \<open>req_\<close> or \<open>res_\<close>. The request's
  \<^verbatim>\<open>industry_keywords\<close> and \<^verbatim>\<open>reserve_override\<close> are never read by the engine.
\<close>

record CampaignFillRequest =
  req_campaign_id :: string
  req_client_id :: string
  req_channel :: Channel
  volume :: int
  title_keywords :: "string list"
  fresh_ratio :: "py_float option"
  max_per_company :: "int option"

text \<open>
  A warning is a string the source formats from a few values; here it is the
  constructor naming the message, applied to those values. \<open>Message\<close> is a string
  taken over as it is (an adapter's or the write-back's error text).
\<close>

datatype warning =
    InsufficientFreshLeads int nat
  | VolumeShortfall int nat
  | WaterfallDisabled
  | CreditLimitReached rat rat
  | ProviderFailed string string
  | FinalShortfall int int int int
  | Message string

record CampaignFillResult =
  res_campaign_id :: string
  res_client_id :: string
  total_requested :: int
  total_assigned :: int
  fresh_count :: int
  retouch_count :: int
  companies_touched :: int
  res_contacts :: "Contact list"
  res_warnings :: "warning list"

text \<open>
  \<^verbatim>\<open>Database.query_eligible_contacts\<close> is a parameter of the engine: its SQL says which
  rows qualify, but leaves the order of rows that tie under its ORDER BY to the store.
  Its arguments are the store, the clock, \<^verbatim>\<open>client_id\<close>, \<^verbatim>\<open>channel\<close>,
  \<^verbatim>\<open>title_keywords\<close>, \<^verbatim>\<open>limit\<close> and \<^verbatim>\<open>status_filter\<close>.
\<close>

type_synonym eligibility_query =
  "Database \<Rightarrow> datetime \<Rightarrow> string \<Rightarrow> Channel \<Rightarrow> string list option \<Rightarrow> int \<Rightarrow>
   DispositionStatus list \<Rightarrow> Contact list"

text \<open>
  Python's \<^verbatim>\<open>int(x)\<close> on a float truncates towards zero, and raises on an infinity and
  on NaN. The product \<^verbatim>\<open>n * x\<close> of an \<^verbatim>\<open>int\<close> and a float converts the integer to
  a float first, correctly rounded, which raises when the integer is too large for one.
\<close>

definition truncate_towards_zero :: "rat \<Rightarrow> int" where
  "truncate_towards_zero x = (if x < 0 then \<lceil>x\<rceil> else \<lfloor>x\<rfloor>)"

definition py_int :: "py_float \<Rightarrow> py_exception + int" where
  "py_int x =
     (case x of
        Finite y \<Rightarrow> Inr (truncate_towards_zero y)
      | NaN \<Rightarrow> Inl (ValueError ''cannot convert float NaN to integer'')
      | _ \<Rightarrow> Inl (OverflowError ''cannot convert float infinity to integer''))"

definition float_of_int :: "int \<Rightarrow> py_exception + py_float" where
  "float_of_int n =
     (case round_to_double (of_int n) of
        Finite y \<Rightarrow> Inr (Finite y)
      | _ \<Rightarrow> Inl (OverflowError ''int too large to convert to float''))"

definition int_times_float :: "int \<Rightarrow> py_float \<Rightarrow> py_exception + py_float" where
  "int_times_float n x =
     (case float_of_int n of
        Inl err \<Rightarrow> Inl err
      | Inr y \<Rightarrow> Inr (float_mul y x))"

text \<open>
  Python's slices \<^verbatim>\<open>xs[:hi]\<close> and \<^verbatim>\<open>xs[lo:hi]\<close>: a negative bound counts from the
  end, and every bound is clipped to the list.
\<close>

definition slice_index :: "int \<Rightarrow> nat \<Rightarrow> nat" where
  "slice_index i n = (if i < 0 then nat (max 0 (int n + i)) else min (nat i) n)"

definition slice_to :: "'a list \<Rightarrow> int \<Rightarrow> 'a list" where
  "slice_to xs hi = take (slice_index hi (length xs)) xs"

definition slice_from_to :: "'a list \<Rightarrow> int \<Rightarrow> int \<Rightarrow> 'a list" where
  "slice_from_to xs lo hi =
     take (slice_index hi (length xs) - slice_index lo (length xs))
       (drop (slice_index lo (length xs)) xs)"

fun apply_company_cap :: "Contact list \<Rightarrow> int \<Rightarrow> (string \<rightharpoonup> int) \<Rightarrow> Contact list" where
  "apply_company_cap [] cap counts = []"
| "apply_company_cap (c # cs) cap counts =
     (let current = (case counts (company_domain c) of None \<Rightarrow> 0 | Some n \<Rightarrow> n) in
      if current < cap
      then c # apply_company_cap cs cap (counts(company_domain c \<mapsto> current + 1))
      else apply_company_cap cs cap counts)"

fun count_by_company_loop :: "Contact list \<Rightarrow> (string \<rightharpoonup> int) \<Rightarrow> (string \<rightharpoonup> int)" where
  "count_by_company_loop [] counts = counts"
| "count_by_company_loop (c # cs) counts =
     count_by_company_loop cs
       (counts(company_domain c \<mapsto>
          (case counts (company_domain c) of None \<Rightarrow> 0 | Some n \<Rightarrow> n) + 1))"

definition count_by_company :: "Contact list \<Rightarrow> (string \<rightharpoonup> int)" where
  "count_by_company cs = count_by_company_loop cs Map.empty"

text \<open>
  The cap the engine works with: \<^verbatim>\<open>request.max_per_company or
  settings.max_contacts_per_company\<close> (a cap of \<^verbatim>\<open>None\<close> or \<open>0\<close> in the request
  selects the configured one).
\<close>

definition effective_max_per_company :: "Settings \<Rightarrow> CampaignFillRequest \<Rightarrow> int" where
  "effective_max_per_company s request =
     (case max_per_company request of
        None \<Rightarrow> max_contacts_per_company s
      | Some m \<Rightarrow> if m \<noteq> 0 then m else max_contacts_per_company s)"

definition effective_ratio :: "Settings \<Rightarrow> CampaignFillRequest \<Rightarrow> py_float" where
  "effective_ratio s request =
     (case fresh_ratio request of None \<Rightarrow> fresh_retouch_ratio s | Some r \<Rightarrow> r)"

text \<open>\<^verbatim>\<open>fresh_target = int(request.volume * ratio)\<close>.\<close>

definition fresh_target_of :: "Settings \<Rightarrow> CampaignFillRequest \<Rightarrow> py_exception + int" where
  "fresh_target_of s request =
     (case int_times_float (volume request) (effective_ratio s request) of
        Inl err \<Rightarrow> Inl err
      | Inr x \<Rightarrow> py_int x)"

text \<open>
  The selection of \<^verbatim>\<open>fill\<close> (from the lists the two queries returned to the list
  \<^verbatim>\<open>all_selected\<close> and the warnings).
\<close>

definition compose_selection ::
  "int \<Rightarrow> int \<Rightarrow> Contact list \<Rightarrow> Contact list \<Rightarrow> Contact list" where
  "compose_selection vol fresh_target selected_fresh selected_retouch =
     (let all1 = slice_to selected_fresh fresh_target;
          remaining = vol - int (length all1);
          all2 = all1 @ slice_to selected_retouch remaining
      in if int (length all2) < vol
         then (let backfill_count = vol - int (length all2) in
               all2 @ slice_from_to selected_fresh fresh_target (fresh_target + backfill_count))
         else all2)"

definition select_contacts ::
  "Settings \<Rightarrow> CampaignFillRequest \<Rightarrow> int \<Rightarrow> Contact list \<Rightarrow> Contact list \<Rightarrow>
   Contact list \<times> warning list" where
  "select_contacts s request fresh_target fresh_contacts retouch_contacts =
     (let max_per_co = effective_max_per_company s request;
          warnings1 =
            (if int (length fresh_contacts) < fresh_target
             then [InsufficientFreshLeads fresh_target (length fresh_contacts)] else []);
          selected_fresh = apply_company_cap fresh_contacts max_per_co Map.empty;
          company_counts = count_by_company selected_fresh;
          selected_retouch = apply_company_cap retouch_contacts max_per_co company_counts;
          all_selected =
            compose_selection (volume request) fresh_target selected_fresh selected_retouch;
          warnings2 =
            (if int (length all_selected) < volume request
             then [VolumeShortfall (volume request) (length all_selected)] else [])
      in (all_selected, warnings1 @ warnings2))"

definition set_last_contacted :: "Channel \<Rightarrow> datetime \<Rightarrow> contact_field" where
  "set_last_contacted ch now =
     (case ch of
        EMAIL \<Rightarrow> Set_email_last_contacted now
      | LINKEDIN \<Rightarrow> Set_linkedin_last_contacted now
      | PHONE \<Rightarrow> Set_phone_last_contacted now)"

definition assign_contact ::
  "Settings \<Rightarrow> datetime \<Rightarrow> Database \<Rightarrow> Contact \<Rightarrow> CampaignFillRequest \<Rightarrow>
   (py_exception + unit) \<times> Database" where
  "assign_contact s now db contact request =
     (case transition s now db (email contact) (client_id contact) IN_SEQUENCE
             (Some (''assigned_to_campaign:'' @ req_campaign_id request)) ''campaign_fill''
             (Some (req_campaign_id request)) of
        (Inl err, db') \<Rightarrow> (Inl err, db')
      | (Inr u, db1) \<Rightarrow>
          (let db2 = update_contact_fields db1 now (email contact) (client_id contact)
                       [set_last_contacted (req_channel request) now,
                        Set_sequence_count (sequence_count contact + 1)];
               db3 = insert_assignment db2 now (email contact) (client_id contact)
                       (req_campaign_id request) (req_client_id request) (req_channel request);
               db4 =
                 (case get_company db3 (company_domain contact) of
                    None \<Rightarrow> db3
                  | Some company \<Rightarrow>
                      if client_owner_id company = None then
                        insert_ownership_change
                          (update_company_fields db3 now (company_domain contact)
                             [Set_client_owner_id (Some (req_client_id request)),
                              Set_client_owned_at (Some now),
                              Set_ownership_expires_at
                                (Some (now + timedelta_days (ownership_duration_months s * 30)))])
                          now (company_domain contact) None (Some (req_client_id request))
                          ''first_claim''
                      else db3)
           in (Inr (), db4)))"

fun assign_loop ::
  "Settings \<Rightarrow> datetime \<Rightarrow> CampaignFillRequest \<Rightarrow> Contact list \<Rightarrow> Database \<Rightarrow>
   (py_exception + unit) \<times> Database" where
  "assign_loop s now request [] db = (Inr (), db)"
| "assign_loop s now request (c # cs) db =
     (case assign_contact s now db c request of
        (Inl err, db') \<Rightarrow> (Inl err, db')
      | (Inr u, db') \<Rightarrow> assign_loop s now request cs db')"

text \<open>
  \<^verbatim>\<open>CampaignFillEngine.fill\<close>. The fresh target is computed before the store is
  read, so a raise of that computation leaves the store as it was. The three counters of
  the assignment loop depend on the selected list only, and are computed from it.
\<close>

definition fill ::
  "eligibility_query \<Rightarrow> Settings \<Rightarrow> datetime \<Rightarrow> CampaignFillRequest \<Rightarrow> Database \<Rightarrow>
   (py_exception + CampaignFillResult) \<times> Database" where
  "fill query s now request db =
     (case fresh_target_of s request of
        Inl err \<Rightarrow> (Inl err, db)
      | Inr fresh_target \<Rightarrow>
     (let kws = (if title_keywords request = [] then None else Some (title_keywords request));
          fresh_contacts =
            query db now (req_client_id request) (req_channel request) kws
              (fresh_target * 2) [FRESH];
          retouch_target = volume request - fresh_target;
          retouch_contacts =
            query db now (req_client_id request) (req_channel request) kws
              (retouch_target * 2) [RETOUCH_ELIGIBLE];
          (all_selected, warnings) =
            select_contacts s request fresh_target fresh_contacts retouch_contacts
      in case assign_loop s now request all_selected db of
           (Inl err, db') \<Rightarrow> (Inl err, db')
         | (Inr u, db') \<Rightarrow>
             (Inr \<lparr>res_campaign_id = req_campaign_id request,
                   res_client_id = req_client_id request,
                   total_requested = volume request,
                   total_assigned = int (length all_selected),
                   fresh_count =
                     count_where (\<lambda>c. disposition_status c = FRESH) all_selected,
                   retouch_count =
                     count_where (\<lambda>c. disposition_status c \<noteq> FRESH) all_selected,
                   companies_touched =
                     int (length (remdups (map company_domain all_selected))),
                   res_contacts = all_selected,
                   res_warnings = warnings\<rparr>, db')))"

definition count_domain :: "string \<Rightarrow> Contact list \<Rightarrow> nat" where
  "count_domain d cs = length (filter (\<lambda>c. company_domain c = d) cs)"

section \<open>Provider contract and waterfall (providers/base.py, waterfall/engine.py)\<close>
























section \<open>Invariants and example stores\<close>

text \<open>
  The number of contacts of a domain that are in a sequence, and the invariant that
  every company's counter equals it.
\<close>

definition count_in_sequence :: "Database \<Rightarrow> string \<Rightarrow> int" where
  "count_in_sequence db d =
     count_where (\<lambda>c. company_domain c = d \<and> disposition_status c = IN_SEQUENCE) (contacts db)"

definition counter_consistent :: "Database \<Rightarrow> bool" where
  "counter_consistent db =
     list_all (\<lambda>co. contacts_in_sequence co = count_in_sequence db (domain co)) (companies db)"

text \<open>The primary key of table \<^verbatim>\<open>contacts\<close>: no two rows share \<open>(email, client_id)\<close>.\<close>

definition contact_key :: "Contact \<Rightarrow> string \<times> string" where
  "contact_key c = (email c, client_id c)"

definition primary_key_ok :: "Database \<Rightarrow> bool" where
  "primary_key_ok db = distinct (map contact_key (contacts db))"

text \<open>
  The foreign key of table \<^verbatim>\<open>contacts\<close>: every contact's domain is the domain of a
  company row. Two stores have the same keys when their contact rows carry, row by row,
  the same primary keys and domains, and their company rows the same domains.
\<close>

definition foreign_key_ok :: "Database \<Rightarrow> bool" where
  "foreign_key_ok db =
     (set (map company_domain (contacts db)) \<subseteq> set (map domain (companies db)))"

definition same_keys :: "Database \<Rightarrow> Database \<Rightarrow> bool" where
  "same_keys db db' =
     (map contact_key (contacts db') = map contact_key (contacts db)
      \<and> map company_domain (contacts db') = map company_domain (contacts db)
      \<and> map domain (companies db') = map domain (companies db))"

text \<open>A contact as an importer hands it to \<^verbatim>\<open>create_contact\<close>.\<close>

definition fresh_contact :: "string \<Rightarrow> string \<Rightarrow> string \<Rightarrow> Contact" where
  "fresh_contact e cid d =
     \<lparr>email = e, client_id = cid, company_domain = d,
      disposition_status = FRESH, disposition_updated_at = None,
      email_last_contacted = None, linkedin_last_contacted = None,
      phone_last_contacted = None, email_cooldown_until = None,
      email_suppressed = False, linkedin_suppressed = False, phone_suppressed = False,
      sequence_count = 0, updated_at = None\<rparr>"

definition contact_a :: Contact where
  "contact_a = fresh_contact ''a@acme.com'' ''client_1'' ''acme.com''"

text \<open>One fresh contact; the same contact put in a sequence once, and twice.\<close>

definition db_one :: Database where
  "db_one = snd (create_contact empty_database 0 contact_a)"

definition db_in_sequence :: Database where
  "db_in_sequence =
     snd (transition default_settings 1 db_one ''a@acme.com'' ''client_1'' IN_SEQUENCE
            None ''ui'' None)"

definition db_in_sequence_twice :: Database where
  "db_in_sequence_twice =
     snd (transition default_settings 2 db_in_sequence ''a@acme.com'' ''client_1'' IN_SEQUENCE
            None ''ui'' None)"

text \<open>More example stores: three contacts at one company, the first of them in a
  sequence; a contact whose sequence ended without a response; a company that
  \<open>client_1\<close> has claimed.\<close>

definition contact_b :: Contact where
  "contact_b = fresh_contact ''b@acme.com'' ''client_1'' ''acme.com''"

definition contact_c :: Contact where
  "contact_c = fresh_contact ''c@acme.com'' ''client_2'' ''acme.com''"

definition db_acme :: Database where
  "db_acme = snd (create_contact (snd (create_contact db_in_sequence 3 contact_b)) 3 contact_c)"

definition db_completed :: Database where
  "db_completed =
     snd (transition default_settings 2 db_in_sequence ''a@acme.com'' ''client_1''
            COMPLETED_NO_RESPONSE None ''ui'' None)"

definition db_owned :: Database where
  "db_owned = snd (claim_ownership default_settings 1 db_one ''acme.com'' ''client_1'')"

text \<open>
  What \<open>suppress_loop\<close> does to a row: it is rewritten when one of the fetched contacts
  that was not yet suppressed has its key.
\<close>

definition suppress_row :: "datetime \<Rightarrow> Contact list \<Rightarrow> Contact \<Rightarrow> Contact" where
  "suppress_row now cs r =
     (if \<exists>c\<in>set cs. \<not> email_suppressed c \<and> is_contact (email c) (client_id c) r
      then r\<lparr>email_suppressed := True, updated_at := Some now\<rparr> else r)"

text \<open>
  The column updates of a transition to RETOUCH\_ELIGIBLE, and the loop invariant of the
  cooldown sweep: every contact still to be processed is in the store with a status from
  which the request for RETOUCH\_ELIGIBLE passes validation.
\<close>

definition retouch_updates :: "datetime \<Rightarrow> contact_field list" where
  "retouch_updates now = [Set_disposition_status RETOUCH_ELIGIBLE, Set_disposition_updated_at now]"

definition sweepable :: "DispositionStatus set" where
  "sweepable = {COMPLETED_NO_RESPONSE, REPLIED_NEUTRAL, REPLIED_NEGATIVE, LOST_CLOSED,
                RETOUCH_ELIGIBLE}"

definition sweep_ready :: "Database \<Rightarrow> Contact list \<Rightarrow> bool" where
  "sweep_ready db cs =
     list_all (\<lambda>c. case get_contact db (email c) (client_id c) of
                      None \<Rightarrow> False
                    | Some r \<Rightarrow> disposition_status r \<in> sweepable) cs"

text \<open>
  Names for the values of \<^verbatim>\<open>fill\<close>: the fresh target of a request for which its
  computation returns, the rows the two queries return, the two lists after the
  per-company cap (\<^verbatim>\<open>selected_fresh\<close>, \<^verbatim>\<open>selected_retouch\<close>) and the composed list
  (\<^verbatim>\<open>all_selected\<close>); and the value a dictionary of counts gives a domain
  (\<^verbatim>\<open>counts.get(domain, 0)\<close>).
\<close>

definition fresh_target :: "Settings \<Rightarrow> CampaignFillRequest \<Rightarrow> int" where
  "fresh_target s request = (case fresh_target_of s request of Inr n \<Rightarrow> n | Inl err \<Rightarrow> 0)"

definition fresh_query_result :: "eligibility_query \<Rightarrow> Settings \<Rightarrow> datetime \<Rightarrow> CampaignFillRequest \<Rightarrow> Database \<Rightarrow> Contact list" where
  "fresh_query_result query s now request db =
     query db now (req_client_id request) (req_channel request)
       (if title_keywords request = [] then None else Some (title_keywords request))
       (fresh_target s request * 2) [FRESH]"

definition retouch_query_result :: "eligibility_query \<Rightarrow> Settings \<Rightarrow> datetime \<Rightarrow> CampaignFillRequest \<Rightarrow> Database \<Rightarrow> Contact list" where
  "retouch_query_result query s now request db =
     query db now (req_client_id request) (req_channel request)
       (if title_keywords request = [] then None else Some (title_keywords request))
       ((volume request - fresh_target s request) * 2) [RETOUCH_ELIGIBLE]"

definition capped_fresh :: "eligibility_query \<Rightarrow> Settings \<Rightarrow> datetime \<Rightarrow> CampaignFillRequest \<Rightarrow> Database \<Rightarrow> Contact list" where
  "capped_fresh query s now request db =
     apply_company_cap (fresh_query_result query s now request db)
       (effective_max_per_company s request) Map.empty"

definition capped_retouch :: "eligibility_query \<Rightarrow> Settings \<Rightarrow> datetime \<Rightarrow> CampaignFillRequest \<Rightarrow> Database \<Rightarrow> Contact list" where
  "capped_retouch query s now request db =
     apply_company_cap (retouch_query_result query s now request db)
       (effective_max_per_company s request)
       (count_by_company (capped_fresh query s now request db))"

definition count_of :: "(string \<rightharpoonup> int) \<Rightarrow> string \<Rightarrow> int" where
  "count_of counts d = (case counts d of None \<Rightarrow> 0 | Some n \<Rightarrow> n)"

definition selected :: "eligibility_query \<Rightarrow> Settings \<Rightarrow> datetime \<Rightarrow> CampaignFillRequest \<Rightarrow> Database \<Rightarrow> Contact list" where
  "selected query s now request db =
     compose_selection (volume request) (fresh_target s request)
       (capped_fresh query s now request db) (capped_retouch query s now request db)"

text \<open>
  The loop invariant of the assignment loop: every contact still to be assigned is in the
  store with a status from which the request for IN\_SEQUENCE passes validation.
\<close>

definition assignable :: "Database \<Rightarrow> Contact list \<Rightarrow> bool" where
  "assignable db cs =
     list_all (\<lambda>c. case get_contact db (email c) (client_id c) of
                      None \<Rightarrow> False
                    | Some r \<Rightarrow> disposition_status r \<in> {FRESH, RETOUCH_ELIGIBLE, IN_SEQUENCE}) cs"

definition in_sequence_updates :: "datetime \<Rightarrow> contact_field list" where
  "in_sequence_updates now = [Set_disposition_status IN_SEQUENCE, Set_disposition_updated_at now]"






text \<open>
  Example data for the fill engine, the TAM tracker and the waterfall: an eligibility
  query that answers from the store (the rows of the client with a status asked for, each
  the row the store finds under its key, in stored order, cut at the limit as SQLite cuts:
  not at all when the limit is negative) and one that answers from two fixed lists, cut
  at the limit; requests with a given ratio and with the configured one; stores with retouch-eligible
  contacts, with two contacts of one company, and with five contacts of which one is in a
  sequence; a provider that raises an exception, one that raises outside
  \<^verbatim>\<open>Exception\<close> and one that returns a lead; a write-back that finds
  every lead already stored.
\<close>

definition stored_query :: eligibility_query where
  "stored_query db now client ch kws row_limit statuses =
     (let rows = filter (\<lambda>c. client_id c = client \<and> disposition_status c \<in> set statuses
                               \<and> get_contact db (email c) (client_id c) = Some c)
                   (contacts db)
      in if row_limit < 0 then rows else take (nat row_limit) rows)"

definition listed_query :: "Contact list \<Rightarrow> Contact list \<Rightarrow> eligibility_query" where
  "listed_query fresh retouch db now client ch kws row_limit statuses =
     take (nat row_limit)
       (if statuses = [FRESH] then fresh
        else if statuses = [RETOUCH_ELIGIBLE] then retouch else [])"

definition contact_r1 :: Contact where
  "contact_r1 = (fresh_contact ''r1@delta.io'' ''client_1'' ''delta.io'')
                  \<lparr>disposition_status := RETOUCH_ELIGIBLE\<rparr>"

definition contact_r2 :: Contact where
  "contact_r2 = (fresh_contact ''r2@epsilon.io'' ''client_1'' ''epsilon.io'')
                  \<lparr>disposition_status := RETOUCH_ELIGIBLE\<rparr>"

definition db_retouch :: Database where
  "db_retouch = snd (create_contact (snd (create_contact empty_database 0 contact_r1)) 0 contact_r2)"

definition db_mixed :: Database where
  "db_mixed = snd (create_contact db_retouch 0 contact_a)"

definition contact_x1 :: Contact where
  "contact_x1 = fresh_contact ''x1@bigco.com'' ''client_1'' ''bigco.com''"

definition contact_x2 :: Contact where
  "contact_x2 = fresh_contact ''x2@bigco.com'' ''client_1'' ''bigco.com''"

definition db_bigco :: Database where
  "db_bigco = snd (create_contact (snd (create_contact empty_database 0 contact_x1)) 0 contact_x2)"

definition fill_request :: "int \<Rightarrow> rat \<Rightarrow> int option \<Rightarrow> CampaignFillRequest" where
  "fill_request v r cap =
     \<lparr>req_campaign_id = ''camp_1'', req_client_id = ''client_1'', req_channel = EMAIL,
      volume = v, title_keywords = [], fresh_ratio = Some (Finite r), max_per_company = cap\<rparr>"

definition default_ratio_request :: "int \<Rightarrow> CampaignFillRequest" where
  "default_ratio_request v =
     \<lparr>req_campaign_id = ''camp_1'', req_client_id = ''client_1'', req_channel = EMAIL,
      volume = v, title_keywords = [], fresh_ratio = None, max_per_company = None\<rparr>"

definition contact_d :: Contact where
  "contact_d = fresh_contact ''d@beta.io'' ''client_1'' ''beta.io''"
definition contact_e :: Contact where
  "contact_e = fresh_contact ''e@gamma.io'' ''client_1'' ''gamma.io''"

definition db_tam :: Database where
  "db_tam = snd (create_contact (snd (create_contact db_acme 3 contact_d)) 3 contact_e)"






section \<open>The state machine: same-state transitions, illegal transitions\<close>

lemmas store_defs = create_contact_def empty_database_def ensure_company_def get_company_def
  get_contact_def new_company_def new_contact_row_def is_contact_def Let_def
  transition_def validate_transition_def get_cooldown_def get_suppression_def
  update_contact_fields_def update_contact_row_def insert_history_def update_company_state_def
  company_state_updates_def update_company_fields_def update_company_row_def
  suppress_company_def get_contacts_by_domain_def fresh_contact_def

lemma db_one_eq:
  "db_one =
     \<lparr>contacts = [new_contact_row 0 contact_a],
      companies = [(new_company ''acme.com'')\<lparr>contacts_total := 1\<rparr>],
      disposition_history = [], client_ownership = [], campaign_assignments = []\<rparr>"
  by (simp add: db_one_def contact_a_def store_defs)

lemma get_contact_db_one:
  "get_contact db_one ''a@acme.com'' ''client_1'' = Some (new_contact_row 0 contact_a)"
  by (simp add: db_one_eq contact_a_def store_defs)

text \<open>
  C1 (counter consistency), evaluated on the store reached from the empty one by creating
  a contact and requesting IN\_SEQUENCE for it twice: all three operations succeed, the
  company's \<^verbatim>\<open>contacts_in_sequence\<close> is 2, and one contact of the domain is
  IN\_SEQUENCE. The second request is a same-state transition, which
  \<^verbatim>\<open>_update_company_state\<close> counts again.
\<close>

theorem counter_drifts_on_repeated_in_sequence:
  "fst (create_contact empty_database 0 contact_a) = Inr (new_contact_row 0 contact_a)
   \<and> fst (transition default_settings 1 db_one ''a@acme.com'' ''client_1'' IN_SEQUENCE
            None ''ui'' None) = Inr ()
   \<and> fst (transition default_settings 2 db_in_sequence ''a@acme.com'' ''client_1'' IN_SEQUENCE
            None ''ui'' None) = Inr ()
   \<and> map contacts_in_sequence (companies db_in_sequence_twice) = [2]
   \<and> count_in_sequence db_in_sequence_twice ''acme.com'' = 1
   \<and> \<not> counter_consistent db_in_sequence_twice"
  by (simp add: db_in_sequence_twice_def db_in_sequence_def db_one_eq store_defs contact_a_def
      count_in_sequence_def count_where_def counter_consistent_def)

text \<open>
  C2 (a same-state transition appends no history row), evaluated on a FRESH contact for
  which FRESH is requested: the call returns, and the history has one more row, from
  FRESH to FRESH.
\<close>

theorem same_state_transition_appends_history:
  "fst (transition default_settings 5 db_one ''a@acme.com'' ''client_1'' FRESH
          None ''ui'' None) = Inr ()
   \<and> disposition_history
       (snd (transition default_settings 5 db_one ''a@acme.com'' ''client_1'' FRESH
               None ''ui'' None))
     = disposition_history db_one @
       [\<lparr>contact_email = ''a@acme.com'', contact_client_id = ''client_1'',
         previous_status = Some FRESH, new_status = FRESH, transition_reason = None,
         triggered_by = ''ui'', campaign_id = None, created_at = 5\<rparr>]"
  by (simp add: db_one_eq store_defs contact_a_def)

lemma TRANSITIONS_eq_spec: "TRANSITIONS s = spec_allowed_targets s"
  by (cases s) (simp_all add: spec_allowed_targets_def)

text \<open>
  C3: for an existing contact with status \<open>S\<close> and a requested status \<open>T \<noteq> S\<close>,
  \<open>transition\<close> raises exactly when \<open>T\<close> is not among the targets the table of section
  4.2 allows from \<open>S\<close> (which are those of \<open>TRANSITIONS\<close>); what it raises is the
  \<^verbatim>\<open>TransitionError\<close> of \<open>S\<close>, \<open>T\<close> and the allowed set; and whenever it raises,
  the store it leaves is the store it was given.
\<close>

theorem transition_illegal_iff:
  assumes "get_contact db e cid = Some c"
    and "new \<noteq> disposition_status c"
  shows "TRANSITIONS (disposition_status c) = spec_allowed_targets (disposition_status c)
       \<and> ((fst (transition s now db e cid new reason trig camp) =
            Inl (TransitionError (disposition_status c) new (TRANSITIONS (disposition_status c))))
          = (new \<notin> spec_allowed_targets (disposition_status c)))
       \<and> ((\<exists>err. fst (transition s now db e cid new reason trig camp) = Inl err)
          = (new \<notin> spec_allowed_targets (disposition_status c)))
       \<and> (\<forall>err. fst (transition s now db e cid new reason trig camp) = Inl err
            \<longrightarrow> snd (transition s now db e cid new reason trig camp) = db)"
  using assms
  by (auto simp: transition_def validate_transition_def Let_def TRANSITIONS_eq_spec
      split: option.splits sum.splits)

theorem transition_illegal_iff_witness:
  "get_contact db_one ''a@acme.com'' ''client_1'' = Some (new_contact_row 0 contact_a)
   \<and> REPLIED_POSITIVE \<noteq> disposition_status (new_contact_row 0 contact_a)
   \<and> fst (transition default_settings 5 db_one ''a@acme.com'' ''client_1'' REPLIED_POSITIVE
            None ''ui'' None)
       = Inl (TransitionError FRESH REPLIED_POSITIVE {IN_SEQUENCE, STALE_DATA, JOB_CHANGE_DETECTED})
   \<and> snd (transition default_settings 5 db_one ''a@acme.com'' ''client_1'' REPLIED_POSITIVE
            None ''ui'' None) = db_one"
proof -
  have h1: "get_contact db_one ''a@acme.com'' ''client_1'' = Some (new_contact_row 0 contact_a)"
    by (rule get_contact_db_one)
  have h2: "REPLIED_POSITIVE \<noteq> disposition_status (new_contact_row 0 contact_a)"
    by (simp add: new_contact_row_def contact_a_def fresh_contact_def)
  have st: "disposition_status (new_contact_row 0 contact_a) = FRESH"
    by (simp add: new_contact_row_def contact_a_def fresh_contact_def)
  from transition_illegal_iff [OF h1 h2, of default_settings 5 None "''ui''" None]
  show ?thesis
    using h1 h2 by (simp add: st spec_allowed_targets_def)
qed

section \<open>Facts about the store operations and the example stores\<close>

lemma find_map_keep:
  assumes "\<And>x. P (f x) = P x"
  shows "find P (map f xs) = map_option f (find P xs)"
  using assms by (induction xs) auto

lemma fold_set_contact_field_key:
  "email (fold set_contact_field flds r) = email r
   \<and> client_id (fold set_contact_field flds r) = client_id r
   \<and> company_domain (fold set_contact_field flds r) = company_domain r"
proof (induction flds arbitrary: r)
  case Nil show ?case by simp
next
  case (Cons f fs)
  have "email (set_contact_field f r) = email r \<and> client_id (set_contact_field f r) = client_id r
      \<and> company_domain (set_contact_field f r) = company_domain r"
    by (cases f) simp_all
  with Cons show ?case by simp
qed

lemma is_contact_update_row:
  "is_contact e' cid' (update_contact_row now flds r) = is_contact e' cid' r"
  by (simp add: is_contact_def update_contact_row_def fold_set_contact_field_key)

lemma get_contact_update:
  "get_contact (update_contact_fields db now e cid flds) e' cid' =
     map_option (\<lambda>r. if is_contact e cid r \<and> flds \<noteq> [] then update_contact_row now flds r else r)
       (get_contact db e' cid')"
proof (cases "flds = []")
  case True
  then show ?thesis by (simp add: update_contact_fields_def option.map_ident)
next
  case False
  then show ?thesis
    unfolding get_contact_def update_contact_fields_def
    by (simp add: find_map_keep is_contact_update_row)
qed

lemma get_company_update:
  "flds \<noteq> [] \<Longrightarrow> get_company (update_company_fields db now d flds) d' =
     map_option (\<lambda>co. if domain co = d then update_company_row now flds co else co) (get_company db d')"
proof -
  have dom: "domain (fold set_company_field flds co) = domain co" for co
  proof (induction flds arbitrary: co)
    case Nil show ?case by simp
  next
    case (Cons f fs)
    have "domain (set_company_field f co) = domain co" by (cases f) simp_all
    with Cons show ?case by simp
  qed
  assume "flds \<noteq> []"
  then show ?thesis
    unfolding get_company_def update_company_fields_def
    by (simp add: find_map_keep update_company_row_def dom)
qed

lemma get_company_domain: "get_company db d = Some co \<Longrightarrow> domain co = d"
  by (auto simp: get_company_def find_Some_iff)

lemmas example_defs = db_in_sequence_def db_one_eq contact_a_def contact_b_def contact_c_def
  db_acme_def db_completed_def db_owned_def

lemma db_acme_eq:
  "db_acme = \<lparr>contacts =
     [(new_contact_row 0 contact_a)\<lparr>disposition_status := IN_SEQUENCE,
         disposition_updated_at := Some 1, updated_at := Some 1\<rparr>,
      new_contact_row 3 contact_b, new_contact_row 3 contact_c],
    companies = [(new_company ''acme.com'')\<lparr>contacts_total := 3, contacts_in_sequence := 1,
         contacts_touched := 1, company_status := ACTIVE, last_contact_date := Some 1,
         company_updated_at := Some 1\<rparr>],
    disposition_history = [\<lparr>contact_email = ''a@acme.com'', contact_client_id = ''client_1'',
         previous_status = Some FRESH, new_status = IN_SEQUENCE, transition_reason = None,
         triggered_by = ''ui'', campaign_id = None, created_at = 1\<rparr>],
    client_ownership = [], campaign_assignments = []\<rparr>"
  by (simp add: example_defs store_defs)

lemma db_completed_eq:
  "db_completed = \<lparr>contacts =
     [(new_contact_row 0 contact_a)\<lparr>disposition_status := COMPLETED_NO_RESPONSE,
         disposition_updated_at := Some 2, email_cooldown_until := Some (2 + timedelta_days 90),
         updated_at := Some 2\<rparr>],
    companies = [(new_company ''acme.com'')\<lparr>contacts_total := 1, contacts_in_sequence := 0,
         contacts_touched := 1, company_status := COOLING, last_contact_date := Some 1,
         company_updated_at := Some 2\<rparr>],
    disposition_history = [\<lparr>contact_email = ''a@acme.com'', contact_client_id = ''client_1'',
         previous_status = Some FRESH, new_status = IN_SEQUENCE, transition_reason = None,
         triggered_by = ''ui'', campaign_id = None, created_at = 1\<rparr>,
       \<lparr>contact_email = ''a@acme.com'', contact_client_id = ''client_1'',
         previous_status = Some IN_SEQUENCE, new_status = COMPLETED_NO_RESPONSE, transition_reason = None,
         triggered_by = ''ui'', campaign_id = None, created_at = 2\<rparr>],
    client_ownership = [], campaign_assignments = []\<rparr>"
  by (simp add: example_defs store_defs default_settings_def timedelta_days_def)

section \<open>The hard-no cascade\<close>

lemma suppress_loop_contacts:
  "contacts (suppress_loop now cs db) = map (suppress_row now cs) (contacts db)"
proof (induction cs arbitrary: db)
  case Nil
  show ?case by (simp add: suppress_row_def)
next
  case (Cons c cs)
  have step: "suppress_row now cs (if is_contact (email c) (client_id c) r
                 then update_contact_row now [Set_email_suppressed True] r else r)
              = suppress_row now (c # cs) r" if "\<not> email_suppressed c" for r
    using that by (auto simp: suppress_row_def update_contact_row_def is_contact_def)
  have skip: "suppress_row now cs r = suppress_row now (c # cs) r" if "email_suppressed c" for r
    using that by (auto simp: suppress_row_def)
  show ?case
  proof (cases "email_suppressed c")
    case True
    then show ?thesis using Cons.IH [of db] skip by simp
  next
    case False
    then show ?thesis
      using Cons.IH [of "update_contact_fields db now (email c) (client_id c) [Set_email_suppressed True]"]
        step
      by (simp add: update_contact_fields_def)
  qed
qed

lemma suppress_loop_companies: "companies (suppress_loop now cs db) = companies db"
  by (induction cs arbitrary: db) (simp_all add: update_contact_fields_def)

lemma suppress_loop_history: "disposition_history (suppress_loop now cs db) = disposition_history db"
  by (induction cs arbitrary: db) (simp_all add: update_contact_fields_def)

lemma suppress_company_all_suppressed:
  assumes "x \<in> set (contacts (suppress_company db now d))" and "company_domain x = d"
  shows "email_suppressed x"
proof -
  let ?cs = "get_contacts_by_domain db d"
  from assms(1) obtain r where r: "r \<in> set (contacts db)" and x: "x = suppress_row now ?cs r"
    by (auto simp: suppress_company_def suppress_loop_contacts)
  have dom: "company_domain r = d"
    using assms(2) x by (simp add: suppress_row_def split: if_splits)
  show ?thesis
  proof (cases "email_suppressed r")
    case True
    then show ?thesis using x by (simp add: suppress_row_def)
  next
    case False
    with r dom have "r \<in> set ?cs \<and> \<not> email_suppressed r \<and> is_contact (email r) (client_id r) r"
      by (simp add: get_contacts_by_domain_def is_contact_def)
    then have "\<exists>c\<in>set ?cs. \<not> email_suppressed c \<and> is_contact (email c) (client_id c) r"
      by blast
    then show ?thesis using x by (simp add: suppress_row_def)
  qed
qed

section \<open>The key constraints of the store are kept\<close>

lemma same_keys_refl: "same_keys db db"
  by (simp add: same_keys_def)

lemma same_keys_trans: "same_keys db db' \<Longrightarrow> same_keys db' db'' \<Longrightarrow> same_keys db db''"
  by (simp add: same_keys_def)

lemma fold_set_company_field_domain: "domain (fold set_company_field flds co) = domain co"
proof (induction flds arbitrary: co)
  case Nil show ?case by simp
next
  case (Cons f fs)
  have "domain (set_company_field f co) = domain co" by (cases f) simp_all
  with Cons show ?case by simp
qed

lemma same_keys_update_contact_fields:
  "same_keys db (update_contact_fields db now e cid flds)"
  by (simp add: same_keys_def update_contact_fields_def contact_key_def update_contact_row_def
      fold_set_contact_field_key)

lemma same_keys_update_company_fields:
  "same_keys db (update_company_fields db now d flds)"
  by (simp add: same_keys_def update_company_fields_def update_company_row_def
      fold_set_company_field_domain)

lemma same_keys_insert_history:
  "same_keys db (insert_history db now e cid prev new reason trig camp)"
  by (simp add: same_keys_def insert_history_def)

lemma same_keys_update_company_state:
  "same_keys db (update_company_state db now d old new)"
  by (simp add: update_company_state_def Let_def same_keys_update_company_fields same_keys_refl)

lemma same_keys_suppress_company:
  "same_keys db (suppress_company db now d)"
  by (simp add: same_keys_def suppress_company_def suppress_loop_contacts suppress_loop_companies
      suppress_row_def contact_key_def)

lemma same_keys_transition:
  "same_keys db (snd (transition s now db e cid new reason trig camp))"
proof (cases "get_contact db e cid")
  case None
  then show ?thesis by (simp add: transition_def same_keys_refl)
next
  case (Some c)
  show ?thesis
  proof (cases "validate_transition (disposition_status c) new")
    case (Inl err)
    with Some show ?thesis by (simp add: transition_def same_keys_refl)
  next
    case (Inr u)
    define ups where "ups = [Set_disposition_status new, Set_disposition_updated_at now]
                      @ (case get_cooldown s new of
                           None \<Rightarrow> []
                         | Some cooldown \<Rightarrow>
                             if cooldown \<noteq> 0 then [Set_email_cooldown_until (now + cooldown)]
                             else [])
                      @ get_suppression new"
    define db1 where "db1 = update_contact_fields db now e cid ups"
    define db2 where "db2 = insert_history db1 now e cid (Some (disposition_status c)) new reason trig camp"
    define db3 where "db3 = update_company_state db2 now (company_domain c) (disposition_status c) new"
    define db4 where "db4 = (if new = REPLIED_HARD_NO
                           then suppress_company db3 now (company_domain c) else db3)"
    have res: "snd (transition s now db e cid new reason trig camp) = db4"
      using Some Inr
      by (simp add: transition_def Let_def db4_def db3_def db2_def db1_def ups_def)
    have "same_keys db db1" unfolding db1_def by (rule same_keys_update_contact_fields)
    moreover have "same_keys db1 db2" unfolding db2_def by (rule same_keys_insert_history)
    moreover have "same_keys db2 db3" unfolding db3_def by (rule same_keys_update_company_state)
    moreover have "same_keys db3 db4"
      unfolding db4_def by (simp add: same_keys_suppress_company same_keys_refl)
    ultimately have "same_keys db db4" by (blast intro: same_keys_trans)
    then show ?thesis by (simp only: res)
  qed
qed

lemma primary_key_ok_empty: "primary_key_ok empty_database"
  and foreign_key_ok_empty: "foreign_key_ok empty_database"
  by (simp_all add: primary_key_ok_def foreign_key_ok_def empty_database_def)

lemma same_keys_constraints:
  assumes "same_keys db db'"
  shows "primary_key_ok db' = primary_key_ok db" and "foreign_key_ok db' = foreign_key_ok db"
  using assms by (simp_all add: same_keys_def primary_key_ok_def foreign_key_ok_def)

lemma get_company_mem:
  assumes "get_company db d = Some co"
  shows "co \<in> set (companies db)" and "domain co = d"
proof -
  from assms obtain i where "i < length (companies db)" and "companies db ! i = co"
    and "domain (companies db ! i) = d"
    by (auto simp: get_company_def find_Some_iff)
  then show "co \<in> set (companies db)" and "domain co = d"
    by (auto intro: nth_mem)
qed

lemma transition_keeps_constraints:
  "primary_key_ok (snd (transition s now db e cid new reason trig camp)) = primary_key_ok db"
  "foreign_key_ok (snd (transition s now db e cid new reason trig camp)) = foreign_key_ok db"
  by (rule same_keys_constraints [OF same_keys_transition])+

lemma create_contact_keeps_constraints:
  assumes "primary_key_ok db" and "foreign_key_ok db"
  shows "primary_key_ok (snd (create_contact db now c))"
    and "foreign_key_ok (snd (create_contact db now c))"
proof -
  let ?db1 = "ensure_company db (company_domain c)"
  have c1: "contacts ?db1 = contacts db"
    by (simp add: ensure_company_def split: option.splits)
  have d1: "set (map domain (companies ?db1)) = insert (company_domain c) (set (map domain (companies db)))"
  proof (cases "get_company db (company_domain c)")
    case None
    then show ?thesis by (simp add: ensure_company_def new_company_def)
  next
    case (Some co)
    from get_company_mem [OF Some] have "company_domain c \<in> set (map domain (companies db))"
      by (metis image_eqI set_map)
    with Some show ?thesis by (auto simp: ensure_company_def)
  qed
  have pk1: "primary_key_ok ?db1" using assms(1) by (simp add: primary_key_ok_def c1)
  have d1': "domain ` set (companies ?db1) = insert (company_domain c) (domain ` set (companies db))"
    using d1 by simp
  have fk1: "foreign_key_ok ?db1" using assms(2) by (auto simp: foreign_key_ok_def c1 d1')
  show "primary_key_ok (snd (create_contact db now c))"
  proof (cases "get_contact ?db1 (email c) (client_id c)")
    case (Some old)
    then show ?thesis using pk1 by (simp add: create_contact_def Let_def)
  next
    case None
    then have "contact_key (new_contact_row now c) \<notin> set (map contact_key (contacts ?db1))"
      by (auto simp: get_contact_def find_None_iff is_contact_def contact_key_def new_contact_row_def)
    then show ?thesis
      using None pk1 by (simp add: create_contact_def Let_def primary_key_ok_def)
  qed
  show "foreign_key_ok (snd (create_contact db now c))"
  proof (cases "get_contact ?db1 (email c) (client_id c)")
    case (Some old)
    then show ?thesis using fk1 by (simp add: create_contact_def Let_def)
  next
    case None
    have m: "domain (if domain co = d then co\<lparr>contacts_total := contacts_total co + 1\<rparr> else co)
        = domain co" for d co
      by simp
    show ?thesis
      using None fk1 d1'
      by (auto simp: create_contact_def Let_def foreign_key_ok_def m new_contact_row_def)
  qed
qed

lemma foreign_key_company:
  assumes "foreign_key_ok db" and "get_contact db e cid = Some c"
  shows "\<exists>co. get_company db (company_domain c) = Some co"
proof -
  from assms(2) obtain i where "i < length (contacts db)" and "contacts db ! i = c"
    by (auto simp: get_contact_def find_Some_iff)
  then have "c \<in> set (contacts db)" by (auto intro: nth_mem)
  with assms(1) have "company_domain c \<in> set (map domain (companies db))"
    by (auto simp: foreign_key_ok_def)
  then have "get_company db (company_domain c) \<noteq> None"
    by (auto simp: get_company_def find_None_iff)
  then show ?thesis by auto
qed

section \<open>The hard-no cascade: the claim\<close>

text \<open>
  C6: when a transition of an existing contact to REPLIED\_HARD\_NO succeeds, on a store
  that satisfies the foreign key of table \<^verbatim>\<open>contacts\<close>, then in the
  store it leaves the company of the contact's domain has \<^verbatim>\<open>company_suppressed\<close> set
  and \<^verbatim>\<open>company_status\<close> SUPPRESSED, and every contact row of that domain, of whatever
  client, has \<^verbatim>\<open>email_suppressed\<close> set.
\<close>

theorem hard_no_suppresses_company_and_contacts:
  assumes found: "get_contact db e cid = Some c"
    and fk: "foreign_key_ok db"
    and ok: "fst (transition s now db e cid REPLIED_HARD_NO reason trig camp) = Inr ()"
  shows "(\<exists>co'. get_company (snd (transition s now db e cid REPLIED_HARD_NO reason trig camp))
                  (company_domain c) = Some co'
              \<and> company_suppressed co' \<and> company_status co' = SUPPRESSED)
       \<and> (\<forall>x \<in> set (contacts (snd (transition s now db e cid REPLIED_HARD_NO reason trig camp))).
             company_domain x = company_domain c \<longrightarrow> email_suppressed x)"
proof -
  let ?d = "company_domain c"
  let ?cur = "disposition_status c"
  from foreign_key_company [OF fk found] obtain co where
    co: "get_company db (company_domain c) = Some co" by blast
  define db1 where "db1 = update_contact_fields db now e cid
     ([Set_disposition_status REPLIED_HARD_NO, Set_disposition_updated_at now] @
      get_suppression REPLIED_HARD_NO)"
  define db2 where "db2 = insert_history db1 now e cid (Some ?cur) REPLIED_HARD_NO reason trig camp"
  define db3 where "db3 = update_company_state db2 now ?d ?cur REPLIED_HARD_NO"
  define db4 where "db4 = suppress_company db3 now ?d"
  from ok found have valid: "validate_transition ?cur REPLIED_HARD_NO = Inr ()"
    by (auto simp: transition_def Let_def split: sum.splits)
  have res: "snd (transition s now db e cid REPLIED_HARD_NO reason trig camp) = db4"
    using found valid
    by (simp add: transition_def Let_def get_cooldown_def db1_def db2_def db3_def db4_def)
  have comp2: "companies db2 = companies db"
    by (simp add: db2_def db1_def insert_history_def update_contact_fields_def get_suppression_def)
  then have gc2: "get_company db2 ?d = Some co"
    using co by (simp add: get_company_def)
  define ups where "ups = company_state_updates db2 now ?d ?cur REPLIED_HARD_NO"
  have ups_tail: "\<exists>pre. ups = pre @ [Set_company_status SUPPRESSED, Set_company_suppressed True,
           Set_suppressed_reason ''hard_no_received'', Set_suppressed_at now]"
    by (simp add: ups_def company_state_updates_def)
  then have ups_ne: "ups \<noteq> []" by auto
  have db3_eq: "db3 = update_company_fields db2 now ?d ups"
    using ups_ne by (simp add: db3_def update_company_state_def ups_def Let_def)
  have gc3: "get_company db3 ?d = Some (update_company_row now ups co)"
    using gc2 ups_ne get_company_domain [OF gc2] by (simp add: db3_eq get_company_update)
  from ups_tail obtain pre where pre: "ups = pre @ [Set_company_status SUPPRESSED, Set_company_suppressed True,
           Set_suppressed_reason ''hard_no_received'', Set_suppressed_at now]" by blast
  have flags: "company_suppressed (update_company_row now ups co)
             \<and> company_status (update_company_row now ups co) = SUPPRESSED"
    by (simp add: pre update_company_row_def)
  have gc4: "get_company db4 ?d = Some (update_company_row now ups co)"
    using gc3 by (simp add: db4_def get_company_def suppress_company_def suppress_loop_companies)
  have all: "\<forall>x \<in> set (contacts db4). company_domain x = ?d \<longrightarrow> email_suppressed x"
    using suppress_company_all_suppressed [of _ db3 now ?d] by (auto simp: db4_def)
  show ?thesis
    using gc4 flags all by (simp add: res)
qed

theorem hard_no_suppresses_company_and_contacts_witness:
  "get_contact db_acme ''a@acme.com'' ''client_1'' =
      Some ((new_contact_row 0 contact_a)\<lparr>disposition_status := IN_SEQUENCE,
         disposition_updated_at := Some 1, updated_at := Some 1\<rparr>)
   \<and> foreign_key_ok db_acme
   \<and> fst (transition default_settings 4 db_acme ''a@acme.com'' ''client_1'' REPLIED_HARD_NO
             None ''ui'' None) = Inr ()
   \<and> (\<exists>co'. get_company (snd (transition default_settings 4 db_acme ''a@acme.com'' ''client_1''
                              REPLIED_HARD_NO None ''ui'' None)) ''acme.com'' = Some co'
          \<and> company_suppressed co' \<and> company_status co' = SUPPRESSED)
   \<and> list_all email_suppressed
        (contacts (snd (transition default_settings 4 db_acme ''a@acme.com'' ''client_1''
                          REPLIED_HARD_NO None ''ui'' None)))
   \<and> length (contacts (snd (transition default_settings 4 db_acme ''a@acme.com'' ''client_1''
                          REPLIED_HARD_NO None ''ui'' None))) = 3"
proof -
  let ?row = "(new_contact_row 0 contact_a)\<lparr>disposition_status := IN_SEQUENCE,
         disposition_updated_at := Some 1, updated_at := Some 1\<rparr>"
  let ?t = "transition default_settings 4 db_acme ''a@acme.com'' ''client_1'' REPLIED_HARD_NO
             None ''ui'' None"
  have h1: "get_contact db_acme ''a@acme.com'' ''client_1'' = Some ?row"
    by (simp add: db_acme_eq contact_a_def store_defs)
  have h2: "foreign_key_ok db_acme"
    by (simp add: foreign_key_ok_def db_acme_eq contact_a_def contact_b_def contact_c_def
        store_defs)
  have h3: "fst ?t = Inr ()"
    by (simp add: db_acme_eq contact_a_def contact_b_def contact_c_def store_defs)
  have dom: "company_domain ?row = ''acme.com''"
    by (simp add: contact_a_def store_defs)
  have doms: "list_all (\<lambda>x. company_domain x = ''acme.com'') (contacts (snd ?t))"
    and len: "length (contacts (snd ?t)) = 3"
    by (simp_all add: db_acme_eq contact_a_def contact_b_def contact_c_def store_defs)
  from hard_no_suppresses_company_and_contacts [OF h1 h2 h3]
  have "(\<exists>co'. get_company (snd ?t) ''acme.com'' = Some co'
              \<and> company_suppressed co' \<and> company_status co' = SUPPRESSED)"
    and "\<forall>x \<in> set (contacts (snd ?t)). company_domain x = ''acme.com'' \<longrightarrow> email_suppressed x"
    unfolding dom by blast+
  with doms have "list_all email_suppressed (contacts (snd ?t))"
    and "(\<exists>co'. get_company (snd ?t) ''acme.com'' = Some co'
              \<and> company_suppressed co' \<and> company_status co' = SUPPRESSED)"
    by (auto simp: list_all_iff)
  with h1 h2 h3 len show ?thesis by blast
qed

section \<open>The cooldown sweep\<close>

lemma transition_retouch_contacts:
  assumes "get_contact db e cid = Some r"
    and "validate_transition (disposition_status r) RETOUCH_ELIGIBLE = Inr ()"
  shows "fst (transition s now db e cid RETOUCH_ELIGIBLE reason trig camp) = Inr ()"
    and "get_contact (snd (transition s now db e cid RETOUCH_ELIGIBLE reason trig camp)) e' cid' =
         get_contact (update_contact_fields db now e cid (retouch_updates now)) e' cid'"
  using assms
  by (simp_all add: transition_def Let_def get_cooldown_def get_suppression_def
      retouch_updates_def get_contact_def insert_history_def update_company_state_def
      update_company_fields_def)

lemma sweepable_valid:
  "st \<in> sweepable \<Longrightarrow> validate_transition st RETOUCH_ELIGIBLE = Inr ()"
  by (auto simp: sweepable_def validate_transition_def)

lemma sweep_step:
  assumes "sweep_ready db (c # cs)"
  shows "fst (transition s now db (email c) (client_id c) RETOUCH_ELIGIBLE reason trig camp) = Inr ()"
    and "sweep_ready (snd (transition s now db (email c) (client_id c) RETOUCH_ELIGIBLE reason trig camp)) cs"
proof -
  from assms obtain r where r: "get_contact db (email c) (client_id c) = Some r"
    and st: "disposition_status r \<in> sweepable"
    by (auto simp: sweep_ready_def split: option.splits)
  note v = sweepable_valid [OF st]
  show "fst (transition s now db (email c) (client_id c) RETOUCH_ELIGIBLE reason trig camp) = Inr ()"
    by (rule transition_retouch_contacts(1) [OF r v])
  have upd: "disposition_status (update_contact_row now (retouch_updates now) x) = RETOUCH_ELIGIBLE" for x
    by (simp add: update_contact_row_def retouch_updates_def)
  have "list_all (\<lambda>c'. case get_contact (update_contact_fields db now (email c) (client_id c) (retouch_updates now)) (email c') (client_id c') of
                      None \<Rightarrow> False
                    | Some r \<Rightarrow> disposition_status r \<in> sweepable) cs"
    using assms
    by (auto simp: sweep_ready_def list_all_iff get_contact_update upd sweepable_def
        split: option.splits)
  then show "sweep_ready (snd (transition s now db (email c) (client_id c) RETOUCH_ELIGIBLE reason trig camp)) cs"
    by (simp add: sweep_ready_def transition_retouch_contacts(2) [OF r v])
qed

lemma cooldown_loop_counts:
  "sweep_ready db cs \<Longrightarrow> fst (cooldown_loop s now cs n db) = Inr (n + int (length cs))"
proof (induction cs arbitrary: db n)
  case Nil
  show ?case by simp
next
  case (Cons c cs)
  let ?t = "transition s now db (email c) (client_id c) RETOUCH_ELIGIBLE
             (Some ''cooldown_expired'') ''system'' None"
  from sweep_step [OF Cons.prems] have ok: "fst ?t = Inr ()" and rdy: "sweep_ready (snd ?t) cs"
    by blast+
  obtain db' where t: "?t = (Inr (), db')" using ok by (cases ?t) auto
  with rdy have "sweep_ready db' cs" by simp
  from Cons.IH [OF this, of "n + 1"] show ?case
    by (simp add: t)
qed

lemma find_distinct_key:
  assumes "distinct (map contact_key xs)" and "c \<in> set xs"
  shows "find (is_contact (email c) (client_id c)) xs = Some c"
  using assms
proof (induction xs)
  case Nil
  then show ?case by simp
next
  case (Cons x xs)
  show ?case
  proof (cases "x = c")
    case True
    then show ?thesis by (simp add: is_contact_def)
  next
    case False
    with Cons.prems have cin: "c \<in> set xs" by simp
    then have "contact_key c \<in> contact_key ` set xs" by blast
    with Cons.prems have "contact_key x \<noteq> contact_key c" by auto
    then have "\<not> is_contact (email c) (client_id c) x"
      by (auto simp: is_contact_def contact_key_def)
    with Cons cin show ?thesis by simp
  qed
qed

lemma expired_sweep_ready:
  assumes "primary_key_ok db"
  shows "sweep_ready db (get_expired_cooldowns db now)"
proof -
  have "case get_contact db (email c) (client_id c) of None \<Rightarrow> False
        | Some r \<Rightarrow> disposition_status r \<in> sweepable"
    if "c \<in> set (get_expired_cooldowns db now)" for c
  proof -
    from that have cin: "c \<in> set (contacts db)"
      and st: "disposition_status c \<in> sweepable"
      by (auto simp: get_expired_cooldowns_def sweepable_def)
    from find_distinct_key [OF _ cin] assms
    have "get_contact db (email c) (client_id c) = Some c"
      by (simp add: get_contact_def primary_key_ok_def)
    with st show ?thesis by simp
  qed
  then show ?thesis by (simp add: sweep_ready_def list_all_iff)
qed

text \<open>
  C9: on a store whose contact rows have distinct primary keys, every contact that
  \<^verbatim>\<open>get_expired_cooldowns\<close> selects has one of the four cooldown statuses, from each
  of which RETOUCH\_ELIGIBLE is a legal target; and \<^verbatim>\<open>process_expired_cooldowns\<close>
  returns the number of selected contacts, that is, no transition of the sweep raised the
  \<^verbatim>\<open>TransitionError\<close> that the loop would swallow (nor any other exception).
\<close>

theorem expired_cooldown_sweep_counts_all:
  assumes "primary_key_ok db"
  shows "(\<forall>c \<in> set (get_expired_cooldowns db now).
            disposition_status c \<in>
              {COMPLETED_NO_RESPONSE, REPLIED_NEUTRAL, REPLIED_NEGATIVE, LOST_CLOSED}
            \<and> RETOUCH_ELIGIBLE \<in> TRANSITIONS (disposition_status c))
       \<and> fst (process_expired_cooldowns s now db) =
           Inr (int (length (get_expired_cooldowns db now)))"
proof -
  have "fst (process_expired_cooldowns s now db) =
           Inr (int (length (get_expired_cooldowns db now)))"
    using cooldown_loop_counts [OF expired_sweep_ready [OF assms], of s now now 0]
    by (simp add: process_expired_cooldowns_def)
  moreover have "\<forall>c \<in> set (get_expired_cooldowns db now).
            disposition_status c \<in>
              {COMPLETED_NO_RESPONSE, REPLIED_NEUTRAL, REPLIED_NEGATIVE, LOST_CLOSED}
            \<and> RETOUCH_ELIGIBLE \<in> TRANSITIONS (disposition_status c)"
    by (auto simp: get_expired_cooldowns_def)
  ultimately show ?thesis by blast
qed

theorem expired_cooldown_sweep_counts_all_witness:
  "primary_key_ok db_completed
   \<and> length (get_expired_cooldowns db_completed (3 + timedelta_days 90)) = 1
   \<and> fst (process_expired_cooldowns default_settings (3 + timedelta_days 90) db_completed) = Inr 1"
proof -
  have pk: "primary_key_ok db_completed"
    by (simp add: primary_key_ok_def db_completed_eq)
  have len: "length (get_expired_cooldowns db_completed (3 + timedelta_days 90)) = 1"
    by (simp add: get_expired_cooldowns_def db_completed_eq timedelta_days_def)
  from expired_cooldown_sweep_counts_all [OF pk, of "3 + timedelta_days 90" default_settings]
  show ?thesis using pk len by simp
qed

section \<open>Ownership claims\<close>

text \<open>
  C10, as amended: when the company of domain \<open>d\<close> is owned by client \<open>x\<close>,
  \<^verbatim>\<open>claim_ownership(d, x)\<close> returns true, leaves the company owned by \<open>x\<close> with
  \<^verbatim>\<open>client_owned_at\<close> set to now and \<^verbatim>\<open>ownership_expires_at\<close> to now plus
  \<^verbatim>\<open>ownership_duration_months\<close> times 30 days, whatever the expiry was before, and
  appends one \<^verbatim>\<open>OwnershipChange\<close> row with reason \<^verbatim>\<open>first_claim\<close> whose previous
  and new owner are both \<open>x\<close>. The new expiry is later than the old one exactly when the
  old window had less than the ownership duration left to run.
\<close>

theorem claim_by_current_owner:
  assumes "get_company db d = Some co"
    and "client_owner_id co = Some x"
  shows "fst (claim_ownership s now db d x) = True
       \<and> (\<exists>co'. get_company (snd (claim_ownership s now db d x)) d = Some co'
            \<and> client_owner_id co' = Some x
            \<and> client_owned_at co' = Some now
            \<and> ownership_expires_at co' =
                Some (now + timedelta_days (ownership_duration_months s * 30))
            \<and> (\<forall>old new. ownership_expires_at co = Some old \<and> ownership_expires_at co' = Some new
                  \<longrightarrow> (old < new) =
                       (old - now < timedelta_days (ownership_duration_months s * 30))))
       \<and> client_ownership (snd (claim_ownership s now db d x)) =
           client_ownership db @
             [\<lparr>oc_company_domain = d, previous_owner_id = Some x, new_owner_id = Some x,
               change_reason = ''first_claim'', changed_at = now\<rparr>]"
proof -
  have dom: "domain co = d"
    using assms(1) by (auto simp: get_company_def find_Some_iff)
  have "find (\<lambda>co. domain co = d) (map (\<lambda>co. if domain co = d then f co else co) (companies db))
        = map_option (\<lambda>co. if domain co = d then f co else co) (find (\<lambda>co. domain co = d) (companies db))"
    if "\<And>co. domain (f co) = domain co" for f
    using that by (intro find_map_keep) auto
  then have main: "fst (claim_ownership s now db d x) = True
       \<and> (\<exists>co'. get_company (snd (claim_ownership s now db d x)) d = Some co'
            \<and> client_owner_id co' = Some x
            \<and> client_owned_at co' = Some now
            \<and> ownership_expires_at co' =
                Some (now + timedelta_days (ownership_duration_months s * 30)))
       \<and> client_ownership (snd (claim_ownership s now db d x)) =
           client_ownership db @
             [\<lparr>oc_company_domain = d, previous_owner_id = Some x, new_owner_id = Some x,
               change_reason = ''first_claim'', changed_at = now\<rparr>]"
    using assms dom
    by (simp add: claim_ownership_def Let_def get_company_def update_company_fields_def
        update_company_row_def insert_ownership_change_def)
  then obtain co' where co': "get_company (snd (claim_ownership s now db d x)) d = Some co'"
    "client_owner_id co' = Some x" "client_owned_at co' = Some now"
    "ownership_expires_at co' = Some (now + timedelta_days (ownership_duration_months s * 30))"
    by blast
  have "(old < new) = (old - now < timedelta_days (ownership_duration_months s * 30))"
    if "ownership_expires_at co = Some old \<and> ownership_expires_at co' = Some new" for old new
    using that co'(4) by auto
  with co' main show ?thesis by blast
qed

theorem claim_by_current_owner_witness:
  "get_company db_owned ''acme.com'' =
     Some ((new_company ''acme.com'')\<lparr>contacts_total := 1, client_owner_id := Some ''client_1'',
        client_owned_at := Some 1, ownership_expires_at := Some (1 + timedelta_days 360),
        company_updated_at := Some 1\<rparr>)
   \<and> fst (claim_ownership default_settings 7 db_owned ''acme.com'' ''client_1'') = True
   \<and> map_option ownership_expires_at
        (get_company (snd (claim_ownership default_settings 7 db_owned ''acme.com'' ''client_1''))
           ''acme.com'') = Some (Some (7 + timedelta_days 360))
   \<and> 1 + timedelta_days 360 < 7 + timedelta_days 360
   \<and> client_ownership (snd (claim_ownership default_settings 7 db_owned ''acme.com'' ''client_1'')) =
       [\<lparr>oc_company_domain = ''acme.com'', previous_owner_id = None, new_owner_id = Some ''client_1'',
         change_reason = ''first_claim'', changed_at = 1\<rparr>,
        \<lparr>oc_company_domain = ''acme.com'', previous_owner_id = Some ''client_1'',
         new_owner_id = Some ''client_1'', change_reason = ''first_claim'', changed_at = 7\<rparr>]"
proof -
  let ?co = "(new_company ''acme.com'')\<lparr>contacts_total := 1, client_owner_id := Some ''client_1'',
        client_owned_at := Some 1, ownership_expires_at := Some (1 + timedelta_days 360),
        company_updated_at := Some 1\<rparr>"
  let ?db' = "snd (claim_ownership default_settings 7 db_owned ''acme.com'' ''client_1'')"
  have h1: "get_company db_owned ''acme.com'' = Some ?co"
    by (simp add: example_defs store_defs claim_ownership_def insert_ownership_change_def
        default_settings_def)
  have h2: "client_owner_id ?co = Some ''client_1''" by simp
  have old: "client_ownership db_owned =
     [\<lparr>oc_company_domain = ''acme.com'', previous_owner_id = None, new_owner_id = Some ''client_1'',
         change_reason = ''first_claim'', changed_at = 1\<rparr>]"
    by (simp add: example_defs store_defs claim_ownership_def insert_ownership_change_def
        default_settings_def)
  have months: "ownership_duration_months default_settings * 30 = 360"
    by (simp add: default_settings_def)
  note inst = claim_by_current_owner [OF h1 h2, of default_settings 7, unfolded months]
  from inst obtain co' where co': "get_company ?db' ''acme.com'' = Some co'"
    and e: "ownership_expires_at co' = Some (7 + timedelta_days 360)"
    and later: "\<forall>old new. ownership_expires_at ?co = Some old \<and> ownership_expires_at co' = Some new
                  \<longrightarrow> (old < new) = (old - 7 < timedelta_days 360)"
    by blast
  from later [rule_format, of "1 + timedelta_days 360" "7 + timedelta_days 360"] e
  have lt: "1 + timedelta_days 360 < 7 + timedelta_days 360" by simp
  have ex: "map_option ownership_expires_at (get_company ?db' ''acme.com'')
      = Some (Some (7 + timedelta_days 360))"
    by (simp add: co' e)
  from inst have "fst (claim_ownership default_settings 7 db_owned ''acme.com'' ''client_1'') = True"
    and "client_ownership ?db' = client_ownership db_owned @
             [\<lparr>oc_company_domain = ''acme.com'', previous_owner_id = Some ''client_1'',
               new_owner_id = Some ''client_1'', change_reason = ''first_claim'', changed_at = 7\<rparr>]"
    by blast+
  with h1 ex lt old show ?thesis by simp
qed

text \<open>
  The claim C10 as stated fails in its parenthesis: a claim by the current owner can
  shorten the ownership window. The company was claimed at time 1 with a duration of 12
  months; a second claim by the same client at time 7, with the duration configured as 6
  months, moves the expiry from \<open>1 + 360\<close> days to \<open>7 + 180\<close> days.
\<close>

theorem claim_shortens_window:
  "map_option client_owner_id (get_company db_owned ''acme.com'') = Some (Some ''client_1'')
   \<and> map_option ownership_expires_at (get_company db_owned ''acme.com'')
       = Some (Some (1 + timedelta_days 360))
   \<and> fst (claim_ownership (default_settings\<lparr>ownership_duration_months := 6\<rparr>) 7 db_owned
            ''acme.com'' ''client_1'') = True
   \<and> map_option ownership_expires_at
        (get_company (snd (claim_ownership (default_settings\<lparr>ownership_duration_months := 6\<rparr>) 7
                             db_owned ''acme.com'' ''client_1'')) ''acme.com'')
       = Some (Some (7 + timedelta_days 180))
   \<and> 7 + timedelta_days 180 < 1 + timedelta_days 360"
  by (simp add: example_defs store_defs claim_ownership_def insert_ownership_change_def
      default_settings_def db_owned_def update_company_fields_def update_company_row_def
      Let_def timedelta_days_def)

section \<open>TAM health\<close>

text \<open>
  C7: in the health record of a TAM query, \<^verbatim>\<open>exhaustion_eta_weeks\<close> is
  \<^verbatim>\<open>available_now\<close> divided by \<^verbatim>\<open>burn_rate_weekly\<close> when the burn rate is
  positive and absent otherwise (both read from the store as the two queries compute
  them); \<^verbatim>\<open>health_status\<close> is \<open>critical\<close> exactly when the ETA is below
  \<^verbatim>\<open>tam_critical_weeks\<close>, \<open>warning\<close> exactly when it is at least that and below
  \<^verbatim>\<open>tam_warning_weeks\<close>, and \<open>healthy\<close> in every other case, in particular
  when there is no ETA. The quotient is the exact one.
\<close>

theorem tam_health_eta_and_status:
  "(let h = get_health s now db client;
        eta = exhaustion_eta_weeks h;
        critical = (case eta of None \<Rightarrow> False | Some x \<Rightarrow> x < of_int (tam_critical_weeks s));
        warning = (case eta of None \<Rightarrow> False
                   | Some x \<Rightarrow> of_int (tam_critical_weeks s) \<le> x \<and> x < of_int (tam_warning_weeks s))
    in burn_rate_weekly h = get_burn_rate db now client
     \<and> available_now h = dict_get (get_tam_pools db now client) ''available_now'' 0
     \<and> eta = (if burn_rate_weekly h > 0
              then Some (of_int (available_now h) / burn_rate_weekly h) else None)
     \<and> (health_status h = ''critical'') = critical
     \<and> (health_status h = ''warning'') = warning
     \<and> (health_status h = ''healthy'') = (\<not> critical \<and> \<not> warning)
     \<and> (eta = None \<longrightarrow> health_status h = ''healthy''))"
  by (auto simp: get_health_def Let_def split: option.splits)

lemma db_tam_contacts:
  "contacts db_tam =
     [(new_contact_row 0 contact_a)\<lparr>disposition_status := IN_SEQUENCE,
         disposition_updated_at := Some 1, updated_at := Some 1\<rparr>,
      new_contact_row 3 contact_b, new_contact_row 3 contact_c,
      new_contact_row 3 contact_d, new_contact_row 3 contact_e]"
  and db_tam_history: "disposition_history db_tam =
      [\<lparr>contact_email = ''a@acme.com'', contact_client_id = ''client_1'',
         previous_status = Some FRESH, new_status = IN_SEQUENCE, transition_reason = None,
         triggered_by = ''ui'', campaign_id = None, created_at = 1\<rparr>]"
  by (simp_all add: db_tam_def db_acme_eq contact_a_def contact_b_def contact_c_def contact_d_def contact_e_def store_defs)

theorem tam_health_eta_and_status_witness:
  "exhaustion_eta_weeks (get_health default_settings 5 db_tam None) = Some 4
   \<and> health_status (get_health default_settings 5 db_tam None) = ''warning''
   \<and> exhaustion_eta_weeks (get_health default_settings 5 db_tam (Some ''client_2'')) = None
   \<and> health_status (get_health default_settings 5 db_tam (Some ''client_2'')) = ''healthy''"
proof -
  have burn: "get_burn_rate db_tam 5 None = 1" "get_burn_rate db_tam 5 (Some ''client_2'') = 0"
    by (simp_all add: get_burn_rate_def db_tam_history count_where_def in_scope_def timedelta_days_def)
  have avail: "dict_get (get_tam_pools db_tam 5 None) ''available_now'' 0 = 4"
    by (simp add: get_tam_pools_def db_tam_contacts dict_get_def count_where_def in_scope_def
        contact_a_def contact_b_def contact_c_def contact_d_def contact_e_def store_defs)
  from tam_health_eta_and_status [of default_settings 5 db_tam None]
    tam_health_eta_and_status [of default_settings 5 db_tam "Some ''client_2''"]
  show ?thesis
    by (simp add: Let_def burn avail default_settings_def)
qed

section \<open>The fill engine: assignment returns, the per-company cap, the composition\<close>

lemma contacts_update_company_state:
  "contacts (update_company_state db now d old new) = contacts db"
  by (simp add: update_company_state_def update_company_fields_def Let_def)

lemma transition_in_sequence:
  assumes "get_contact db e cid = Some r"
    and "validate_transition (disposition_status r) IN_SEQUENCE = Inr ()"
  shows "fst (transition s now db e cid IN_SEQUENCE reason trig camp) = Inr ()"
    and "contacts (snd (transition s now db e cid IN_SEQUENCE reason trig camp)) =
         contacts (update_contact_fields db now e cid (in_sequence_updates now))"
  using assms
  by (simp_all add: transition_def Let_def get_cooldown_def get_suppression_def
      in_sequence_updates_def insert_history_def contacts_update_company_state)

lemma assign_contact_ok:
  assumes "get_contact db (email c) (client_id c) = Some r"
    and "validate_transition (disposition_status r) IN_SEQUENCE = Inr ()"
  shows "fst (assign_contact s now db c request) = Inr ()"
    and "contacts (snd (assign_contact s now db c request)) =
         contacts (update_contact_fields
           (update_contact_fields db now (email c) (client_id c) (in_sequence_updates now))
           now (email c) (client_id c)
           [set_last_contacted (req_channel request) now,
            Set_sequence_count (sequence_count c + 1)])"
proof -
  let ?t = "transition s now db (email c) (client_id c) IN_SEQUENCE
             (Some (''assigned_to_campaign:'' @ req_campaign_id request)) ''campaign_fill''
             (Some (req_campaign_id request))"
  from transition_in_sequence [OF assms] have ok: "fst ?t = Inr ()"
    and cs: "contacts (snd ?t) =
         contacts (update_contact_fields db now (email c) (client_id c) (in_sequence_updates now))"
    by blast+
  obtain db1 where t: "?t = (Inr (), db1)" using ok by (cases ?t) auto
  with cs have cs1: "contacts db1 =
      contacts (update_contact_fields db now (email c) (client_id c) (in_sequence_updates now))"
    by simp
  show "fst (assign_contact s now db c request) = Inr ()"
    unfolding assign_contact_def t by (simp add: Let_def)
  show "contacts (snd (assign_contact s now db c request)) =
         contacts (update_contact_fields
           (update_contact_fields db now (email c) (client_id c) (in_sequence_updates now))
           now (email c) (client_id c)
           [set_last_contacted (req_channel request) now,
            Set_sequence_count (sequence_count c + 1)])"
    unfolding assign_contact_def t
    by (simp add: Let_def insert_assignment_def insert_ownership_change_def
        update_company_fields_def update_contact_fields_def cs1 split: option.splits)
qed

lemma assignable_valid:
  "st \<in> {FRESH, RETOUCH_ELIGIBLE, IN_SEQUENCE} \<Longrightarrow> validate_transition st IN_SEQUENCE = Inr ()"
  by (auto simp: validate_transition_def)

lemma get_contact_cong: "contacts db = contacts db' \<Longrightarrow> get_contact db e cid = get_contact db' e cid"
  by (simp add: get_contact_def)

lemma assign_step:
  assumes "assignable db (c # cs)"
  shows "fst (assign_contact s now db c request) = Inr ()"
    and "assignable (snd (assign_contact s now db c request)) cs"
proof -
  from assms obtain r where r: "get_contact db (email c) (client_id c) = Some r"
    and st: "disposition_status r \<in> {FRESH, RETOUCH_ELIGIBLE, IN_SEQUENCE}"
    by (auto simp: assignable_def split: option.splits)
  note v = assignable_valid [OF st]
  show "fst (assign_contact s now db c request) = Inr ()"
    by (rule assign_contact_ok(1) [OF r v])
  let ?db2 = "update_contact_fields
           (update_contact_fields db now (email c) (client_id c) (in_sequence_updates now))
           now (email c) (client_id c)
           [set_last_contacted (req_channel request) now,
            Set_sequence_count (sequence_count c + 1)]"
  have st1: "disposition_status (update_contact_row now (in_sequence_updates now) x) = IN_SEQUENCE" for x
    by (simp add: update_contact_row_def in_sequence_updates_def)
  have st2: "disposition_status (update_contact_row now
       [set_last_contacted ch now, Set_sequence_count n] x) = disposition_status x" for x ch n
    by (cases ch) (simp_all add: update_contact_row_def set_last_contacted_def)
  have ne: "in_sequence_updates now \<noteq> []" by (simp add: in_sequence_updates_def)
  have "list_all (\<lambda>c'. case get_contact ?db2 (email c') (client_id c') of
                      None \<Rightarrow> False
                    | Some r \<Rightarrow> disposition_status r \<in> {FRESH, RETOUCH_ELIGIBLE, IN_SEQUENCE}) cs"
    using assms
    by (auto simp: assignable_def list_all_iff get_contact_update st1 st2 is_contact_update_row
        ne split: option.splits)
  then show "assignable (snd (assign_contact s now db c request)) cs"
    unfolding assignable_def
    using get_contact_cong [OF assign_contact_ok(2) [OF r v, of s now request]] by simp
qed

lemma assign_loop_ok:
  "assignable db cs \<Longrightarrow> fst (assign_loop s now request cs db) = Inr ()"
proof (induction cs arbitrary: db)
  case Nil
  show ?case by simp
next
  case (Cons c cs)
  let ?a = "assign_contact s now db c request"
  from assign_step [OF Cons.prems] have ok: "fst ?a = Inr ()" and rdy: "assignable (snd ?a) cs"
    by blast+
  obtain db' where a: "?a = (Inr (), db')" using ok by (cases ?a) auto
  with rdy have "assignable db' cs" by simp
  from Cons.IH [OF this] show ?case by (simp add: a)
qed

lemma fresh_target_eq: "fresh_target_of s request = Inr ft \<Longrightarrow> fresh_target s request = ft"
  by (simp add: fresh_target_def)

lemma fill_raises:
  "fresh_target_of s request = Inl err \<Longrightarrow> fill query s now request db = (Inl err, db)"
  by (simp add: fill_def)

lemma fill_unfold:
  assumes "fresh_target_of s request = Inr ft"
  shows "fill query s now request db =
     (case assign_loop s now request (selected query s now request db) db of
        (Inl err, db') \<Rightarrow> (Inl err, db')
      | (Inr u, db') \<Rightarrow>
          (Inr \<lparr>res_campaign_id = req_campaign_id request,
                res_client_id = req_client_id request,
                total_requested = volume request,
                total_assigned = int (length (selected query s now request db)),
                fresh_count =
                  count_where (\<lambda>c. disposition_status c = FRESH)
                    (selected query s now request db),
                retouch_count =
                  count_where (\<lambda>c. disposition_status c \<noteq> FRESH)
                    (selected query s now request db),
                companies_touched =
                  int (length (remdups (map company_domain (selected query s now request db)))),
                res_contacts = selected query s now request db,
                res_warnings =
                  snd (select_contacts s request ft (fresh_query_result query s now request db)
                         (retouch_query_result query s now request db))\<rparr>, db'))"
proof -
  note ft = fresh_target_eq [OF assms]
  have sel: "fst (select_contacts s request ft (fresh_query_result query s now request db)
                (retouch_query_result query s now request db)) = selected query s now request db"
    by (simp add: select_contacts_def selected_def capped_fresh_def capped_retouch_def Let_def ft)
  have fq: "query db now (req_client_id request) (req_channel request)
       (if title_keywords request = [] then None else Some (title_keywords request))
       (ft * 2) [FRESH] = fresh_query_result query s now request db"
    by (simp add: fresh_query_result_def ft)
  have rq: "query db now (req_client_id request) (req_channel request)
       (if title_keywords request = [] then None else Some (title_keywords request))
       ((volume request - ft) * 2) [RETOUCH_ELIGIBLE] = retouch_query_result query s now request db"
    by (simp add: retouch_query_result_def ft)
  show ?thesis
    unfolding fill_def assms sum.case Let_def case_prod_beta fq rq sel
    by (rule refl)
qed

lemma fill_returns:
  assumes "assignable db (selected query s now request db)"
    and "fresh_target_of s request = Inr ft"
  shows "\<exists>res db'. fill query s now request db = (Inr res, db')
           \<and> res_contacts res = selected query s now request db
           \<and> retouch_count res =
               count_where (\<lambda>c. disposition_status c \<noteq> FRESH) (selected query s now request db)
           \<and> total_assigned res = int (length (selected query s now request db))"
proof -
  let ?l = "assign_loop s now request (selected query s now request db) db"
  from assign_loop_ok [OF assms(1)] have "fst ?l = Inr ()" .
  then obtain db' where l: "?l = (Inr (), db')" by (cases ?l) auto
  show ?thesis
    unfolding fill_unfold [OF assms(2)] l by simp
qed

lemma fill_target:
  assumes "fill query s now request db = (Inr res, db')"
  shows "fresh_target_of s request = Inr (fresh_target s request)"
proof (cases "fresh_target_of s request")
  case (Inl err)
  from fill_raises [OF this, of query now db] assms show ?thesis by simp
next
  case (Inr ft)
  then show ?thesis by (simp add: fresh_target_def)
qed

lemma fill_contacts:
  assumes "fill query s now request db = (Inr res, db')"
  shows "res_contacts res =
     compose_selection (volume request) (fresh_target s request)
       (capped_fresh query s now request db) (capped_retouch query s now request db)"
    and "retouch_count res = count_where (\<lambda>c. disposition_status c \<noteq> FRESH) (res_contacts res)"
    and "total_assigned res = int (length (res_contacts res))"
  using assms unfolding fill_unfold [OF fill_target [OF assms]] selected_def [symmetric]
  by (auto split: prod.splits sum.splits)

lemma apply_company_cap_Cons:
  "apply_company_cap (c # cs) cap counts =
     (if count_of counts (company_domain c) < cap
      then c # apply_company_cap cs cap
             (counts(company_domain c \<mapsto> count_of counts (company_domain c) + 1))
      else apply_company_cap cs cap counts)"
  by (simp add: count_of_def Let_def)

lemma count_of_upd:
  "count_of (counts(k \<mapsto> v)) d = (if d = k then v else count_of counts d)"
  by (simp add: count_of_def)

lemma count_domain_Cons:
  "count_domain d (c # cs) = (if company_domain c = d then 1 else 0) + count_domain d cs"
  by (simp add: count_domain_def)

lemma apply_company_cap_bound:
  "count_of counts d + int (count_domain d (apply_company_cap cs cap counts))
     \<le> max cap (count_of counts d)"
proof (induction cs arbitrary: counts)
  case Nil
  show ?case by (simp add: count_domain_def)
next
  case (Cons c cs)
  let ?dc = "company_domain c"
  let ?cur = "count_of counts ?dc"
  show ?case
  proof (cases "?cur < cap")
    case False
    then show ?thesis
      using Cons.IH [of counts] by (simp only: apply_company_cap_Cons if_False)
  next
    case True
    let ?counts' = "counts(?dc \<mapsto> ?cur + 1)"
    have res: "apply_company_cap (c # cs) cap counts = c # apply_company_cap cs cap ?counts'"
      using True by (simp only: apply_company_cap_Cons if_True)
    note ih = Cons.IH [of ?counts']
    show ?thesis
    proof (cases "d = ?dc")
      case True
      have eq: "count_of ?counts' d = ?cur + 1" using True by (simp add: count_of_upd)
      from ih have "?cur + 1 + int (count_domain d (apply_company_cap cs cap ?counts'))
          \<le> max cap (?cur + 1)" unfolding eq .
      moreover have "count_domain d (c # apply_company_cap cs cap ?counts')
          = 1 + count_domain d (apply_company_cap cs cap ?counts')"
        using True by (simp only: count_domain_Cons) simp
      ultimately show ?thesis
        using \<open>?cur < cap\<close> unfolding res True by linarith
    next
      case False
      then have eq: "count_of ?counts' d = count_of counts d" by (simp add: count_of_upd)
      from ih have "count_of counts d + int (count_domain d (apply_company_cap cs cap ?counts'))
          \<le> max cap (count_of counts d)" unfolding eq .
      moreover have "count_domain d (c # apply_company_cap cs cap ?counts')
          = count_domain d (apply_company_cap cs cap ?counts')"
        using False by (simp only: count_domain_Cons) simp
      ultimately show ?thesis unfolding res by simp
    qed
  qed
qed

lemma count_by_company_loop_Cons:
  "count_by_company_loop (c # cs) counts =
     count_by_company_loop cs
       (counts(company_domain c \<mapsto> count_of counts (company_domain c) + 1))"
  by (simp add: count_of_def)

lemma count_by_company_loop_count:
  "count_of (count_by_company_loop cs counts) d = count_of counts d + int (count_domain d cs)"
proof (induction cs arbitrary: counts)
  case Nil
  show ?case by (simp add: count_domain_def)
next
  case (Cons c cs)
  show ?case
    unfolding count_by_company_loop_Cons Cons.IH count_of_upd count_domain_Cons
    by simp
qed

lemma count_by_company_count:
  "count_of (count_by_company cs) d = int (count_domain d cs)"
  by (simp add: count_by_company_def count_by_company_loop_count) (simp add: count_of_def)

lemma capped_lists_bound:
  "int (count_domain d (apply_company_cap fresh cap Map.empty))
   + int (count_domain d (apply_company_cap retouch cap
        (count_by_company (apply_company_cap fresh cap Map.empty))))
   \<le> max 0 cap"
proof -
  let ?fs = "apply_company_cap fresh cap Map.empty"
  have f: "int (count_domain d ?fs) \<le> max cap 0"
    using apply_company_cap_bound [of Map.empty d fresh cap] by (simp add: count_of_def)
  have "int (count_domain d ?fs) + int (count_domain d (apply_company_cap retouch cap (count_by_company ?fs)))
        \<le> max cap (int (count_domain d ?fs))"
    using apply_company_cap_bound [of "count_by_company ?fs" d retouch cap]
    by (simp add: count_by_company_count)
  with f show ?thesis by linarith
qed

lemma count_domain_append: "count_domain d (xs @ ys) = count_domain d xs + count_domain d ys"
  by (simp add: count_domain_def)

lemma count_domain_take: "count_domain d (take n xs) \<le> count_domain d xs"
proof -
  have "count_domain d xs = count_domain d (take n xs) + count_domain d (drop n xs)"
    by (metis append_take_drop_id count_domain_append)
  then show ?thesis by simp
qed

lemma count_domain_take_drop:
  "count_domain d (take i xs) + count_domain d (take k (drop i xs)) \<le> count_domain d xs"
proof -
  have "count_domain d xs = count_domain d (take i xs) + count_domain d (drop i xs)"
    by (metis append_take_drop_id count_domain_append)
  moreover have "count_domain d (take k (drop i xs)) \<le> count_domain d (drop i xs)"
    by (rule count_domain_take)
  ultimately show ?thesis by simp
qed

lemma compose_selection_count:
  "count_domain d (compose_selection vol ft fs rs) \<le> count_domain d fs + count_domain d rs"
proof -
  have a: "count_domain d (slice_to rs k) \<le> count_domain d rs" for k
    by (simp add: slice_to_def count_domain_take)
  have b: "count_domain d (slice_to fs ft) \<le> count_domain d fs"
    by (simp add: slice_to_def count_domain_take)
  have c: "count_domain d (slice_to fs ft) + count_domain d (slice_from_to fs ft hi) \<le> count_domain d fs" for hi
    by (simp add: slice_to_def slice_from_to_def count_domain_take_drop)
  show ?thesis
    unfolding compose_selection_def Let_def
    using a [of "vol - int (length (slice_to fs ft))"] b
      c [of "ft + (vol - int (length (slice_to fs ft @ slice_to rs (vol - int (length (slice_to fs ft))))))"]
    by (simp add: count_domain_append del: length_append)
qed

lemma set_apply_company_cap: "set (apply_company_cap cs cap counts) \<subseteq> set cs"
proof (induction cs arbitrary: counts)
  case Nil
  show ?case by simp
next
  case (Cons c cs)
  show ?case
  proof (cases "count_of counts (company_domain c) < cap")
    case True
    let ?counts' = "counts(company_domain c \<mapsto> count_of counts (company_domain c) + 1)"
    have e: "apply_company_cap (c # cs) cap counts = c # apply_company_cap cs cap ?counts'"
      using True by (simp only: apply_company_cap_Cons if_True)
    show ?thesis
      unfolding e list.set using Cons.IH [of ?counts'] by (rule insert_mono)
  next
    case False
    then have e: "apply_company_cap (c # cs) cap counts = apply_company_cap cs cap counts"
      by (simp only: apply_company_cap_Cons if_False)
    show ?thesis
      unfolding e list.set using Cons.IH [of counts] by (rule subset_insertI2)
  qed
qed

lemma set_compose_selection:
  "set (compose_selection vol ft fs rs) \<subseteq> set fs \<union> set rs"
proof -
  have a: "set (slice_to xs k) \<subseteq> set xs" for xs :: "Contact list" and k
    by (simp add: slice_to_def set_take_subset)
  have b: "set (slice_from_to xs lo hi) \<subseteq> set xs" for xs :: "Contact list" and lo hi
    unfolding slice_from_to_def
    by (meson set_take_subset set_drop_subset subset_trans)
  show ?thesis
    unfolding compose_selection_def Let_def
    using a [of fs ft] a [of rs "vol - int (length (slice_to fs ft))"]
      b [of fs ft "ft + (vol - int (length (slice_to fs ft @ slice_to rs (vol - int (length (slice_to fs ft))))))"]
    by (auto simp del: length_append)
qed

lemma fill_returns_for_stored_rows:
  assumes "assignable db (fresh_query_result query s now request db)"
    and "assignable db (retouch_query_result query s now request db)"
    and "fresh_target_of s request = Inr ft"
  shows "\<exists>res db'. fill query s now request db = (Inr res, db')"
proof -
  have "set (selected query s now request db)
        \<subseteq> set (fresh_query_result query s now request db)
          \<union> set (retouch_query_result query s now request db)"
    unfolding selected_def capped_fresh_def capped_retouch_def
    using set_compose_selection set_apply_company_cap by blast
  with assms(1,2) have "assignable db (selected query s now request db)"
    unfolding assignable_def list_all_iff by blast
  from fill_returns [OF this assms(3)] show ?thesis by blast
qed

lemmas select_defs = compose_selection_def slice_to_def slice_from_to_def
  slice_index_def effective_max_per_company_def
  fill_request_def listed_query_def count_by_company_def count_where_def default_settings_def

lemmas selected_defs = selected_def capped_fresh_def capped_retouch_def fresh_query_result_def
  retouch_query_result_def

text \<open>
  The configured ratio is the binary64 value of the literal \<^verbatim>\<open>0.7\<close>; the fresh targets
  of the example requests.
\<close>

lemma default_ratio_is_literal:
  "round_to_double (7 / 10) = fresh_retouch_ratio default_settings"
  unfolding default_settings_def by code_simp

lemma fresh_target_2_1: "fresh_target_of default_settings (fill_request 2 1 (Some 1)) = Inr 2"
  by code_simp

lemma fresh_target_1_1: "fresh_target_of default_settings (fill_request 1 1 (Some 0)) = Inr 1"
  by code_simp

lemma fresh_target_2_half: "fresh_target_of default_settings (fill_request 2 (1 / 2) None) = Inr 1"
  by code_simp

lemma fresh_target_10: "fresh_target_of default_settings (default_ratio_request 10) = Inr 7"
  by code_simp

lemma fresh_target_90: "fresh_target_of default_settings (default_ratio_request 90) = Inr 62"
  by code_simp

lemma fresh_target_nan:
  "fresh_target_of default_settings ((default_ratio_request 10)\<lparr>fresh_ratio := Some NaN\<rparr>)
   = Inl (ValueError ''cannot convert float NaN to integer'')"
  by code_simp

lemma db_retouch_contacts:
  "contacts db_retouch = [new_contact_row 0 contact_r1, new_contact_row 0 contact_r2]"
  by (simp add: db_retouch_def contact_r1_def contact_r2_def store_defs)

lemma db_mixed_contacts:
  "contacts db_mixed = [new_contact_row 0 contact_r1, new_contact_row 0 contact_r2,
                        new_contact_row 0 contact_a]"
  by (simp add: db_mixed_def db_retouch_def contact_r1_def contact_r2_def contact_a_def store_defs)

lemma db_bigco_contacts:
  "contacts db_bigco = [new_contact_row 0 contact_x1, new_contact_row 0 contact_x2]"
  by (simp add: db_bigco_def contact_x1_def contact_x2_def store_defs)

lemmas contact_defs = contact_a_def contact_r1_def contact_r2_def contact_x1_def contact_x2_def
  new_contact_row_def fresh_contact_def

text \<open>
  C5, as amended: let \<open>c\<close> be the cap the engine works with, which is the request's
  \<^verbatim>\<open>max_per_company\<close> when that is given and not zero, and the configured
  \<^verbatim>\<open>max_contacts_per_company\<close> otherwise. Whatever rows the two eligibility queries
  return, the list a fill returns holds at most \<open>max 0 c\<close> contacts of any one company
  domain, fresh and retouch selections counted together.
\<close>

theorem fill_respects_effective_cap:
  assumes "fill query s now request db = (Inr res, db')"
  shows "int (count_domain d (res_contacts res)) \<le> max 0 (effective_max_per_company s request)"
proof -
  let ?cap = "effective_max_per_company s request"
  let ?fs = "capped_fresh query s now request db"
  let ?rs = "capped_retouch query s now request db"
  have "count_domain d (res_contacts res) \<le> count_domain d ?fs + count_domain d ?rs"
    by (simp add: fill_contacts(1) [OF assms] compose_selection_count)
  moreover have "int (count_domain d ?fs) + int (count_domain d ?rs) \<le> max 0 ?cap"
    unfolding capped_fresh_def capped_retouch_def by (rule capped_lists_bound)
  ultimately show ?thesis by linarith
qed

theorem fill_respects_effective_cap_witness:
  "\<exists>res db'. fill (listed_query [new_contact_row 0 contact_x1, new_contact_row 0 contact_x2] [])
                 default_settings 1 (fill_request 2 1 (Some 1)) db_bigco = (Inr res, db')
      \<and> effective_max_per_company default_settings (fill_request 2 1 (Some 1)) = 1
      \<and> int (count_domain ''bigco.com'' (res_contacts res)) \<le> 1
      \<and> res_contacts res = [new_contact_row 0 contact_x1]"
proof -
  let ?q = "listed_query [new_contact_row 0 contact_x1, new_contact_row 0 contact_x2] []"
  let ?req = "fill_request 2 1 (Some 1)"
  have sel: "selected ?q default_settings 1 ?req db_bigco = [new_contact_row 0 contact_x1]"
    unfolding selected_defs fresh_target_eq [OF fresh_target_2_1]
    by (simp add: select_defs contact_defs)
  have "assignable db_bigco (selected ?q default_settings 1 ?req db_bigco)"
    unfolding sel
    by (simp add: assignable_def get_contact_def db_bigco_contacts contact_defs is_contact_def)
  from fill_returns [OF this fresh_target_2_1] obtain res db' where
    f: "fill ?q default_settings 1 ?req db_bigco = (Inr res, db')"
    and c: "res_contacts res = selected ?q default_settings 1 ?req db_bigco" by blast
  have cap: "effective_max_per_company default_settings ?req = 1"
    by (simp add: effective_max_per_company_def fill_request_def)
  from fill_respects_effective_cap [OF f, of "''bigco.com''"]
  have "int (count_domain ''bigco.com'' (res_contacts res)) \<le> 1"
    by (simp add: cap)
  with f cap c sel show ?thesis by auto
qed

text \<open>
  The claim C5 as stated fails for a request whose \<^verbatim>\<open>max_per_company\<close> is 0: the
  engine then works with the configured cap, and the returned list holds a contact.
\<close>

theorem zero_cap_selects_default:
  "max_per_company (fill_request 1 1 (Some 0)) = Some 0
   \<and> (\<exists>res db'. fill (listed_query [new_contact_row 0 contact_a] []) default_settings 1
                    (fill_request 1 1 (Some 0)) db_one = (Inr res, db')
        \<and> count_domain ''acme.com'' (res_contacts res) = 1)"
proof -
  let ?q = "listed_query [new_contact_row 0 contact_a] []"
  let ?req = "fill_request 1 1 (Some 0)"
  have sel: "selected ?q default_settings 1 ?req db_one = [new_contact_row 0 contact_a]"
    unfolding selected_defs fresh_target_eq [OF fresh_target_1_1]
    by (simp add: select_defs contact_defs)
  have "assignable db_one (selected ?q default_settings 1 ?req db_one)"
    unfolding sel
    by (simp add: assignable_def get_contact_def db_one_eq contact_defs is_contact_def)
  from fill_returns [OF this fresh_target_1_1] obtain res db' where
    f: "fill ?q default_settings 1 ?req db_one = (Inr res, db')"
    and c: "res_contacts res = selected ?q default_settings 1 ?req db_one" by blast
  have "count_domain ''acme.com'' (res_contacts res) = 1"
    unfolding c sel by (simp add: count_domain_def contact_defs)
  moreover have "max_per_company ?req = Some 0" by (simp add: fill_request_def)
  ultimately show ?thesis using f by blast
qed

lemma slice_to_nonneg: "0 \<le> k \<Longrightarrow> slice_to xs k = take (nat k) xs"
  by (cases "nat k \<le> length xs") (simp_all add: slice_to_def slice_index_def min_def)

lemma slice_from_to_nonneg:
  assumes "0 \<le> lo" and "0 \<le> k"
  shows "slice_from_to xs lo (lo + k) = take (nat k) (drop (nat lo) xs)"
proof (cases "nat lo < length xs")
  case False
  then show ?thesis using assms by (simp add: slice_from_to_def slice_index_def)
next
  case True
  show ?thesis
  proof (cases "nat (lo + k) \<le> length xs")
    case True
    then show ?thesis using assms \<open>nat lo < length xs\<close>
      by (simp add: slice_from_to_def slice_index_def min_def nat_add_distrib)
  next
    case False
    then have "length (drop (nat lo) xs) \<le> nat k" using assms by (simp add: nat_add_distrib)
    then show ?thesis using assms False \<open>nat lo < length xs\<close>
      by (simp add: slice_from_to_def slice_index_def min_def)
  qed
qed

lemma compose_selection_slices:
  "compose_selection vol ft fs rs =
     slice_to fs ft @ slice_to rs (vol - int (length (slice_to fs ft)))
       @ (if int (length (slice_to fs ft) + length (slice_to rs (vol - int (length (slice_to fs ft))))) < vol
          then slice_from_to fs ft
                 (ft + (vol - int (length (slice_to fs ft)
                                   + length (slice_to rs (vol - int (length (slice_to fs ft)))))))
          else [])"
  unfolding compose_selection_def Let_def length_append
  by (simp only: append_assoc append_Nil2 if_distrib [of "\<lambda>x. _ @ x"] split: if_split)

text \<open>
  C4, as amended: for a request on which the fill returns, the engine's fresh target is
  \<open>F = int(V * r)\<close>, the product of the volume, as a float, and the ratio in binary64
  arithmetic, truncated towards zero, and \<open>R = V - F\<close>. The returned list is the slice
  \<^verbatim>\<open>[:F]\<close> of the capped fresh list, then the slice \<^verbatim>\<open>[:V - n]\<close> of the capped
  retouch list, \<open>n\<close> being the number of fresh contacts just taken, then, when the list
  is still shorter than \<open>V\<close>, a top-up from the capped fresh list after position \<open>F\<close>
  up to the volume still open. For \<open>F \<ge> 0\<close> the first part is the first \<open>F\<close> contacts of
  the capped fresh list; for \<open>n \<le> V\<close> the retouch part is the first \<open>V - n\<close> contacts of
  the capped retouch list, so it has at most \<open>V - n\<close> contacts, which is at most \<open>R\<close>
  whenever the capped fresh list has at least \<open>F\<close> contacts and \<open>0 \<le> F \<le> V\<close>.
\<close>

theorem fill_composition:
  assumes "fill query s now request db = (Inr res, db')"
  shows "\<exists>x F. int_times_float (volume request) (effective_ratio s request) = Inr x
       \<and> py_int x = Inr F
       \<and> (let V = volume request;
               R = V - F;
               fs = capped_fresh query s now request db;
               rs = capped_retouch query s now request db;
               first = slice_to fs F;
               second = slice_to rs (V - int (length first));
               third = (if int (length first + length second) < V
                        then slice_from_to fs F (F + (V - int (length first + length second)))
                        else [])
           in res_contacts res = first @ second @ third
            \<and> (0 \<le> F \<longrightarrow> first = take (nat F) fs)
            \<and> (int (length first) \<le> V \<longrightarrow>
                  second = take (nat (V - int (length first))) rs
                  \<and> int (length second) \<le> V - int (length first))
            \<and> (0 \<le> F \<longrightarrow>
                  third = take (nat (V - int (length first + length second))) (drop (nat F) fs))
            \<and> (0 \<le> F \<and> F \<le> V \<and> nat F \<le> length fs \<longrightarrow> int (length second) \<le> R))"
proof -
  let ?V = "volume request"
  let ?F = "fresh_target s request"
  let ?fs = "capped_fresh query s now request db"
  let ?rs = "capped_retouch query s now request db"
  let ?first = "slice_to ?fs ?F"
  let ?second = "slice_to ?rs (?V - int (length ?first))"
  let ?third = "if int (length ?first + length ?second) < ?V
                then slice_from_to ?fs ?F (?F + (?V - int (length ?first + length ?second)))
                else []"
  have ft: "fresh_target_of s request = Inr ?F" by (rule fill_target [OF assms])
  then obtain x where x: "int_times_float ?V (effective_ratio s request) = Inr x"
    and px: "py_int x = Inr ?F"
    by (auto simp: fresh_target_of_def split: sum.splits)
  have comp: "res_contacts res = ?first @ ?second @ ?third"
    unfolding fill_contacts(1) [OF assms] by (rule compose_selection_slices)
  have first: "?first = take (nat ?F) ?fs" if "0 \<le> ?F"
    using that by (rule slice_to_nonneg)
  have second: "?second = take (nat (?V - int (length ?first))) ?rs" if "int (length ?first) \<le> ?V"
    using that by (intro slice_to_nonneg) simp
  have bound: "int (length ?second) \<le> ?V - int (length ?first)" if "int (length ?first) \<le> ?V"
  proof -
    have "length (take (nat (?V - int (length ?first))) ?rs) \<le> nat (?V - int (length ?first))"
      by simp
    then show ?thesis unfolding second [OF that] using that by linarith
  qed
  have third: "?third = take (nat (?V - int (length ?first + length ?second))) (drop (nat ?F) ?fs)"
    if "0 \<le> ?F"
  proof (cases "int (length ?first + length ?second) < ?V")
    case True
    then have k: "0 \<le> ?V - int (length ?first + length ?second)" by linarith
    show ?thesis
      unfolding if_P [OF True] by (rule slice_from_to_nonneg [OF that k])
  next
    case False
    then have "nat (?V - int (length ?first + length ?second)) = 0" by linarith
    then show ?thesis unfolding if_not_P [OF False] by (simp only: take_0)
  qed
  have share: "int (length ?second) \<le> ?V - ?F" if "0 \<le> ?F" "?F \<le> ?V" "nat ?F \<le> length ?fs"
  proof -
    have "length ?first = nat ?F" unfolding first [OF that(1)] using that(3) by simp
    then have l: "int (length ?first) = ?F" using that(1) by linarith
    then have "int (length ?first) \<le> ?V" using that(2) by linarith
    from bound [OF this] show ?thesis unfolding l .
  qed
  have "let V = ?V; R = V - ?F; fs = ?fs; rs = ?rs;
               first = slice_to fs ?F;
               second = slice_to rs (V - int (length first));
               third = (if int (length first + length second) < V
                        then slice_from_to fs ?F (?F + (V - int (length first + length second)))
                        else [])
           in res_contacts res = first @ second @ third
            \<and> (0 \<le> ?F \<longrightarrow> first = take (nat ?F) fs)
            \<and> (int (length first) \<le> V \<longrightarrow>
                  second = take (nat (V - int (length first))) rs
                  \<and> int (length second) \<le> V - int (length first))
            \<and> (0 \<le> ?F \<longrightarrow>
                  third = take (nat (V - int (length first + length second))) (drop (nat ?F) fs))
            \<and> (0 \<le> ?F \<and> ?F \<le> V \<and> nat ?F \<le> length fs \<longrightarrow> int (length second) \<le> R)"
    unfolding Let_def
  proof (intro conjI impI)
    show "res_contacts res = ?first @ ?second @ ?third" by (rule comp)
    show "?first = take (nat ?F) ?fs" if "0 \<le> ?F" using that by (rule first)
    show "?second = take (nat (?V - int (length ?first))) ?rs" if "int (length ?first) \<le> ?V"
      using that by (rule second)
    show "int (length ?second) \<le> ?V - int (length ?first)" if "int (length ?first) \<le> ?V"
      using that by (rule bound)
    show "?third = take (nat (?V - int (length ?first + length ?second))) (drop (nat ?F) ?fs)"
      if "0 \<le> ?F" using that by (rule third)
    show "int (length ?second) \<le> ?V - ?F" if "0 \<le> ?F \<and> ?F \<le> ?V \<and> nat ?F \<le> length ?fs"
      using that share by blast
  qed
  with x px show ?thesis by blast
qed

theorem fill_composition_witness:
  "\<exists>res db'. fill (listed_query [new_contact_row 0 contact_a]
                         [new_contact_row 0 contact_r1, new_contact_row 0 contact_r2])
                    default_settings 1 (fill_request 2 (1 / 2) None) db_mixed = (Inr res, db')
        \<and> fresh_target_of default_settings (fill_request 2 (1 / 2) None) = Inr 1
        \<and> res_contacts res = [new_contact_row 0 contact_a, new_contact_row 0 contact_r1]"
proof -
  let ?q = "listed_query [new_contact_row 0 contact_a]
                         [new_contact_row 0 contact_r1, new_contact_row 0 contact_r2]"
  let ?req = "fill_request 2 (1 / 2) None"
  note ft = fresh_target_eq [OF fresh_target_2_half]
  have sel: "selected ?q default_settings 1 ?req db_mixed =
      [new_contact_row 0 contact_a, new_contact_row 0 contact_r1]"
    unfolding selected_defs ft by (simp add: select_defs contact_defs)
  have "assignable db_mixed (selected ?q default_settings 1 ?req db_mixed)"
    unfolding sel
    by (simp add: assignable_def get_contact_def db_mixed_contacts contact_defs is_contact_def)
  from fill_returns [OF this fresh_target_2_half] obtain res db' where
    f: "fill ?q default_settings 1 ?req db_mixed = (Inr res, db')" by blast
  have fs: "capped_fresh ?q default_settings 1 ?req db_mixed = [new_contact_row 0 contact_a]"
    unfolding selected_defs ft by (simp add: select_defs contact_defs)
  have rs: "capped_retouch ?q default_settings 1 ?req db_mixed =
      [new_contact_row 0 contact_r1, new_contact_row 0 contact_r2]"
    unfolding selected_defs ft by (simp add: select_defs contact_defs)
  have V: "volume ?req = 2" by (simp add: fill_request_def)
  from fill_composition [OF f] obtain x F where
    x: "int_times_float (volume ?req) (effective_ratio default_settings ?req) = Inr x"
    and px: "py_int x = Inr F"
    and c: "let V = volume ?req;
               R = V - F;
               fs = capped_fresh ?q default_settings 1 ?req db_mixed;
               rs = capped_retouch ?q default_settings 1 ?req db_mixed;
               first = slice_to fs F;
               second = slice_to rs (V - int (length first));
               third = (if int (length first + length second) < V
                        then slice_from_to fs F (F + (V - int (length first + length second)))
                        else [])
           in res_contacts res = first @ second @ third
            \<and> (0 \<le> F \<longrightarrow> first = take (nat F) fs)
            \<and> (int (length first) \<le> V \<longrightarrow>
                  second = take (nat (V - int (length first))) rs
                  \<and> int (length second) \<le> V - int (length first))
            \<and> (0 \<le> F \<longrightarrow>
                  third = take (nat (V - int (length first + length second))) (drop (nat F) fs))
            \<and> (0 \<le> F \<and> F \<le> V \<and> nat F \<le> length fs \<longrightarrow> int (length second) \<le> R)"
    by blast
  have F: "F = 1"
    using fresh_target_2_half x px by (simp add: fresh_target_of_def)
  from c have "res_contacts res = [new_contact_row 0 contact_a, new_contact_row 0 contact_r1]"
    unfolding Let_def fs rs V F
    by (simp add: slice_to_def slice_index_def slice_from_to_def)
  with f fresh_target_2_half show ?thesis by blast
qed

lemma selected_retouch:
  "selected (listed_query [] (contacts db_retouch)) default_settings 1
      (fill_request 2 (1 / 2) None) db_retouch
   = [new_contact_row 0 contact_r1, new_contact_row 0 contact_r2]"
  unfolding selected_defs fresh_target_eq [OF fresh_target_2_half]
  by (simp add: db_retouch_contacts contact_r1_def contact_r2_def select_defs store_defs)

text \<open>
  The claim C4 as stated fails in its fresh target and in its retouch share. With the
  configured ratio, the binary64 value \<open>r\<close> of \<^verbatim>\<open>0.7\<close>, volume 10 gives
  \<open>F = 7\<close> while \<open>\<lfloor>10 r\<rfloor> = 6\<close> (the product rounds up to 7), and volume 90 gives
  \<open>F = 62\<close> while \<open>\<lfloor>90 \<cdot> 7/10\<rfloor> = 63\<close>. With volume 2 and ratio 1/2 the fresh target
  is 1, so the retouch share \<open>R\<close> is 1, and with no fresh contact the fill assigns both
  retouch contacts.
\<close>

theorem fill_composition_counterexample:
  "fresh_target_of default_settings (default_ratio_request 10) = Inr 7
   \<and> effective_ratio default_settings (default_ratio_request 10)
       = Finite (6305039478318694 / 9007199254740992)
   \<and> \<lfloor>10 * (6305039478318694 / 9007199254740992 :: rat)\<rfloor> = 6
   \<and> fresh_target_of default_settings (default_ratio_request 90) = Inr 62
   \<and> \<lfloor>90 * (7 / 10 :: rat)\<rfloor> = 63
   \<and> fresh_target_of default_settings (fill_request 2 (1 / 2) None) = Inr 1
   \<and> volume (fill_request 2 (1 / 2) None) - 1 = 1
   \<and> (\<exists>res db'. fill (listed_query [] (contacts db_retouch)) default_settings 1
                    (fill_request 2 (1 / 2) None) db_retouch = (Inr res, db')
        \<and> res_contacts res = [new_contact_row 0 contact_r1, new_contact_row 0 contact_r2]
        \<and> retouch_count res = 2)"
proof -
  have a: "assignable db_retouch (selected (listed_query [] (contacts db_retouch)) default_settings 1
      (fill_request 2 (1 / 2) None) db_retouch)"
    unfolding selected_retouch
    by (simp add: assignable_def get_contact_def db_retouch_contacts contact_r1_def contact_r2_def
        new_contact_row_def fresh_contact_def is_contact_def)
  have r: "effective_ratio default_settings (default_ratio_request 10)
       = Finite (6305039478318694 / 9007199254740992)"
    by (simp add: effective_ratio_def default_ratio_request_def default_settings_def)
  have fl: "\<lfloor>10 * (6305039478318694 / 9007199254740992 :: rat)\<rfloor> = 6"
    "\<lfloor>90 * (7 / 10 :: rat)\<rfloor> = 63"
    by code_simp+
  have v: "volume (fill_request 2 (1 / 2) None) - 1 = 1" by (simp add: fill_request_def)
  have c: "count_where (\<lambda>c. disposition_status c \<noteq> FRESH)
             [new_contact_row 0 contact_r1, new_contact_row 0 contact_r2] = 2"
    by (simp add: count_where_def contact_r1_def contact_r2_def new_contact_row_def fresh_contact_def)
  from fill_returns [OF a fresh_target_2_half] c
  have "\<exists>res db'. fill (listed_query [] (contacts db_retouch)) default_settings 1
                    (fill_request 2 (1 / 2) None) db_retouch = (Inr res, db')
        \<and> res_contacts res = [new_contact_row 0 contact_r1, new_contact_row 0 contact_r2]
        \<and> retouch_count res = 2"
    unfolding selected_retouch by auto
  with fresh_target_10 r fl fresh_target_90 fresh_target_2_half v show ?thesis by blast
qed

section \<open>The waterfall: a provider that raises\<close>












text \<open>
  With the eligibility query that answers from the store, the fill engine returns on every
  store and every request whose fresh target is computed.
\<close>

lemma stored_query_assignable:
  assumes "set statuses \<subseteq> {FRESH, RETOUCH_ELIGIBLE}"
  shows "assignable db (stored_query db now client ch kws row_limit statuses)"
proof -
  have "case get_contact db (email c) (client_id c) of
          None \<Rightarrow> False
        | Some r \<Rightarrow> disposition_status r \<in> {FRESH, RETOUCH_ELIGIBLE, IN_SEQUENCE}"
    if "c \<in> set (stored_query db now client ch kws row_limit statuses)" for c
  proof -
    from that have "c \<in> set (filter (\<lambda>c. client_id c = client \<and> disposition_status c \<in> set statuses
                               \<and> get_contact db (email c) (client_id c) = Some c) (contacts db))"
      by (auto simp: stored_query_def Let_def split: if_splits dest: in_set_takeD)
    then have g: "get_contact db (email c) (client_id c) = Some c"
      and "disposition_status c \<in> set statuses"
      unfolding set_filter by blast+
    with assms have "disposition_status c \<in> {FRESH, RETOUCH_ELIGIBLE, IN_SEQUENCE}" by auto
    then show ?thesis unfolding g by simp
  qed
  then show ?thesis unfolding assignable_def list_all_iff by blast
qed

lemma fill_stored_query_returns:
  assumes "fresh_target_of s request = Inr ft"
  shows "\<exists>res db'. fill stored_query s now request db = (Inr res, db')"
proof (rule fill_returns_for_stored_rows [OF _ _ assms])
  show "assignable db (fresh_query_result stored_query s now request db)"
    unfolding fresh_query_result_def by (rule stored_query_assignable) simp
  show "assignable db (retouch_query_result stored_query s now request db)"
    unfolding retouch_query_result_def by (rule stored_query_assignable) simp
qed









end
